theory Spec2Isabelle
  imports Main
begin

section \<open>Identifiers, time and documents\<close>

text \<open>
  Document identifiers (Mongo ObjectIds) are opaque and compared for equality only, so
  they are natural numbers here. A timestamp is the number of milliseconds since the
  epoch, as \<^verbatim>\<open>Date.now()\<close> and \<^verbatim>\<open>getTime()\<close> return it. Every
  \<^verbatim>\<open>new Date()\<close> or \<^verbatim>\<open>Date.now()\<close> in a handler is its own reading of the wall clock:
  a \<open>clock\<close> gives the reading taken at a source line of the handler's file.
\<close>

type_synonym uid = nat
type_synonym gid = nat
type_synonym mid = nat
type_synonym sid = nat
type_synonym time = int
type_synonym clock = "nat \<Rightarrow> time"

text \<open>
  Modelled from the spec: the schemas \<^verbatim>\<open>models/User\<close>, \<^verbatim>\<open>models/Group\<close> and
  \<^verbatim>\<open>models/Message\<close> are not among the sources. The records below hold the fields the
  handlers read and write, with the meaning section 3 of the specification gives them; a
  field that may be absent is an option. The delivery sets of a message, which no handler
  modelled here touches, are left out.
\<close>

datatype role = Member | Manager | Admin

record notification =
  ntype :: string
  title :: string
  nmessage :: string
  n_groupId :: "gid option"
  groupName :: string
  n_senderId :: "uid option"
  senderUsername :: "string option"
  n_createdAt :: time

record user =
  u_id :: uid
  username :: string
  u_role :: role
  u_groupId :: "gid option"
  isOnline :: bool
  lastSeen :: "time option"
  groupJoinedAt :: "time option"
  notifications :: "notification list"

record group =
  g_id :: gid
  g_name :: string
  region :: string
  g_users :: "uid list"
  managers :: "uid list"

record edited_info =
  isEdited :: bool
  editedAt :: "time option"

record deleted_info =
  isDeleted :: bool
  deletedBy :: "uid option"
  deletedAt :: "time option"

record message =
  m_id :: mid
  senderId :: uid
  groupId :: "gid option"
  m_text :: "string option"
  m_file :: "string option"
  tags :: "string list"
  forwardedFrom :: "mid option"
  forwardedToGroups :: "gid list"
  edited :: edited_info
  deleted :: deleted_info
  createdAt :: time

text \<open>
  The application state: the three collections of the document store, the counter the
  store draws fresh message ids from, what the cache tier holds (key
  \<^verbatim>\<open>notifications:<userId>\<close>, value the JSON text of a notification list, modelled by
  the list it encodes), and whether the socket server has been attached to the app
  (\<^verbatim>\<open>app.set('io', io)\<close>).
\<close>

record state =
  users :: "uid \<rightharpoonup> user"
  groups :: "group list"
  messages :: "message list"
  nextId :: mid
  cache :: "uid \<rightharpoonup> notification list"
  io :: bool

section \<open>config/redis.js\<close>

text \<open>
  The cache client of the repository. It is a stand-in for development: \<^verbatim>\<open>get\<close> resolves
  null whatever the key, \<^verbatim>\<open>setex\<close> resolves \<^verbatim>\<open>'OK'\<close> and stores nothing, \<^verbatim>\<open>del\<close> resolves 1
  and removes nothing. So what the cache tier holds is never read and never changes.
\<close>

definition redis_get :: "(uid \<rightharpoonup> notification list) \<Rightarrow> uid \<Rightarrow> notification list option" where
  "redis_get c k = None"

definition redis_setex ::
  "(uid \<rightharpoonup> notification list) \<Rightarrow> uid \<Rightarrow> nat \<Rightarrow> notification list \<Rightarrow>
   (uid \<rightharpoonup> notification list)" where
  "redis_setex c k ttl v = c"

definition redis_del :: "(uid \<rightharpoonup> notification list) \<Rightarrow> uid \<Rightarrow> (uid \<rightharpoonup> notification list)" where
  "redis_del c k = c"

section \<open>services/notificationService.js\<close>

text \<open>
  Every function of the service is one \<^verbatim>\<open>try\<close> whose \<^verbatim>\<open>catch\<close> returns the failure
  value. The three awaited calls can each reject: the per-user document update or read,
  the cache read and the cache write. Which of them reject is an input of the model; the
  stand-in client itself never rejects, the client it stands in for can.
\<close>

record faults =
  db_down :: bool
  get_down :: bool
  setex_down :: bool

definition no_faults :: faults where
  "no_faults = \<lparr>db_down = False, get_down = False, setex_down = False\<rparr>"

definition answering :: "faults \<Rightarrow> bool" where
  "answering f = (\<not> db_down f \<and> \<not> get_down f \<and> \<not> setex_down f)"

text \<open>\<^verbatim>\<open>User.findByIdAndUpdate(userId, { $push: { notifications: notification } })\<close>:
  appends to the user's list; an id with no document updates nothing and does not fail.\<close>

definition push_notification :: "(uid \<rightharpoonup> user) \<Rightarrow> uid \<Rightarrow> notification \<Rightarrow> (uid \<rightharpoonup> user)" where
  "push_notification us i n =
     (case us i of
        None \<Rightarrow> us
      | Some u \<Rightarrow> us(i \<mapsto> u\<lparr>notifications := notifications u @ [n]\<rparr>))"

text \<open>\<^verbatim>\<open>if (notifications.length > 100) notifications.splice(0, notifications.length - 100)\<close>\<close>

definition cap100 :: "notification list \<Rightarrow> notification list" where
  "cap100 ns = (if length ns > 100 then drop (length ns - 100) ns else ns)"

definition sendNotification :: "faults \<Rightarrow> state \<Rightarrow> uid \<Rightarrow> notification \<Rightarrow> bool \<times> state" where
  "sendNotification f s i n =
     (if db_down f then (False, s)
      else
        let s1 = s\<lparr>users := push_notification (users s) i n\<rparr> in
        if get_down f then (False, s1)
        else
          let ns = cap100 ((case redis_get (cache s1) i of None \<Rightarrow> [] | Some l \<Rightarrow> l) @ [n]) in
          if setex_down f then (False, s1)
          else (True, s1\<lparr>cache := redis_setex (cache s1) i (24 * 60 * 60) ns\<rparr>))"

definition getNotifications :: "faults \<Rightarrow> state \<Rightarrow> uid \<Rightarrow> notification list \<times> state" where
  "getNotifications f s i =
     (if get_down f then ([], s)
      else
        case redis_get (cache s) i of
          Some l \<Rightarrow> (l, s)
        | None \<Rightarrow>
            if db_down f then ([], s)
            else
              (case users s i of
                 None \<Rightarrow> ([], s)
               | Some u \<Rightarrow>
                   if setex_down f then ([], s)
                   else (notifications u,
                         s\<lparr>cache := redis_setex (cache s) i (24 * 60 * 60) (notifications u)\<rparr>)))"

section \<open>Shared helpers of the controllers and the socket handlers\<close>

text \<open>
  \<^verbatim>\<open>utils/parser\<close> is required by the controller and by the socket module; every function
  that calls \<^verbatim>\<open>extractTags\<close> takes it as the parameter \<open>xt\<close>. Its argument is the text as the
  caller passes it, which may be absent.
\<close>

type_synonym extractor = "string option \<Rightarrow> string list"

text \<open>JavaScript truthiness of an optional string (the text of a message, its file
  reference): absent and empty are both falsy.\<close>

definition truthy :: "string option \<Rightarrow> bool" where
  "truthy t = (case t of None \<Rightarrow> False | Some v \<Rightarrow> v \<noteq> [])"

datatype error = BadRequest string | Forbidden string | NotFound string | ServerError string

definition findGroup :: "state \<Rightarrow> gid \<Rightarrow> group option" where
  "findGroup s i = find (\<lambda>g. g_id g = i) (groups s)"

definition findMessage :: "state \<Rightarrow> mid \<Rightarrow> message option" where
  "findMessage s i = find (\<lambda>m. m_id m = i) (messages s)"

text \<open>
  Modelled from the spec: the defaults of the Message schema, which is not among the
  sources. A message is created with the \<open>edited\<close> and \<open>deleted\<close> sub-records cleared and
  with the creation timestamp of the moment; the schema is taken to accept what the
  handlers pass it.
\<close>

definition new_message ::
  "mid \<Rightarrow> uid \<Rightarrow> gid option \<Rightarrow> string option \<Rightarrow> string option \<Rightarrow> string list \<Rightarrow>
   mid option \<Rightarrow> gid list \<Rightarrow> time \<Rightarrow> message" where
  "new_message i sndr g t f tg ff ftg now =
     \<lparr>m_id = i, senderId = sndr, groupId = g, m_text = t, m_file = f, tags = tg,
      forwardedFrom = ff, forwardedToGroups = ftg,
      edited = \<lparr>isEdited = False, editedAt = None\<rparr>,
      deleted = \<lparr>isDeleted = False, deletedBy = None, deletedAt = None\<rparr>,
      createdAt = now\<rparr>"

text \<open>\<^verbatim>\<open>Message.create\<close>: the store assigns a fresh id and appends the record to the
  collection.\<close>

definition Message_create :: "state \<Rightarrow> (mid \<Rightarrow> message) \<Rightarrow> message \<times> state" where
  "Message_create s mk =
     (let m = mk (nextId s)
      in (m, s\<lparr>messages := messages s @ [m], nextId := Suc (nextId s)\<rparr>))"

text \<open>\<^verbatim>\<open>message.save()\<close> writes the document back under its id.\<close>

definition save :: "state \<Rightarrow> message \<Rightarrow> state" where
  "save s m = s\<lparr>messages := map (\<lambda>x. if m_id x = m_id m then m else x) (messages s)\<rparr>"

text \<open>\<^verbatim>\<open>Message.updateMany({ forwardedFrom: messageId }, update)\<close>\<close>

definition updateForwarded :: "state \<Rightarrow> mid \<Rightarrow> (message \<Rightarrow> message) \<Rightarrow> state" where
  "updateForwarded s i upd =
     s\<lparr>messages := map (\<lambda>x. if forwardedFrom x = Some i then upd x else x) (messages s)\<rparr>"

text \<open>
  \<^verbatim>\<open>.populate('senderId', 'username email').populate('groupId', 'name region')\<close>: the
  references are replaced by the documents they name, or by null when there is none. A
  handler that reads back by id the document it has just written gets that document.
\<close>

record populated =
  doc :: message
  senderInfo :: "string option"
  groupInfo :: "(string \<times> string) option"

definition populate :: "state \<Rightarrow> message \<Rightarrow> populated" where
  "populate s m =
     \<lparr>doc = m,
      senderInfo = map_option username (users s (senderId m)),
      groupInfo = (case groupId m of
                     None \<Rightarrow> None
                   | Some g \<Rightarrow> map_option (\<lambda>x. (g_name x, region x)) (findGroup s g))\<rparr>"

subsection \<open>What a handler emits\<close>

datatype room = UserRoom uid | GroupRoom "gid option" | AdminRoom

text \<open>
  \<open>ToRoom r\<close> is \<^verbatim>\<open>io.to(r).emit\<close>; \<open>ToRoomExcept r k\<close> is \<^verbatim>\<open>socket.to(r).emit\<close> from socket
  \<open>k\<close> (everyone in the room but that socket); \<open>ToSocket k\<close> is \<^verbatim>\<open>socket.emit\<close>; \<open>ToAll\<close> is
  \<^verbatim>\<open>io.emit\<close>.
\<close>

datatype target = ToRoom room | ToRoomExcept room sid | ToSocket sid | ToAll

datatype payload =
    Presence uid string bool "time option" "time option"
  | NewMessage populated "(gid option \<times> string) option"
  | EditedMessage populated
  | DeletedMessage mid "(uid \<times> string) option"
  | NotificationNew notification

datatype emission = Emit (dest: target) (event: string) (body: payload)

section \<open>controllers/messageController.js\<close>

text \<open>
  The document store is taken to answer every call of the request handlers; a call that
  rejects sends the handler to its \<^verbatim>\<open>catch\<close> and a 500 response. The retention sweep is
  the exception, since a claim is about its failure.
\<close>

datatype sweep_log = Cleaned nat | Quiet | SweepError

definition expired :: "time \<Rightarrow> message \<Rightarrow> bool" where
  "expired cutoff m =
     (isDeleted (deleted m) \<and>
      (case deletedAt (deleted m) of None \<Rightarrow> False | Some t \<Rightarrow> t < cutoff))"

text \<open>\<open>store_ok\<close> tells whether \<^verbatim>\<open>Message.deleteMany\<close> resolves; when it rejects, the
  \<^verbatim>\<open>catch\<close> logs the error and the function returns normally.\<close>

definition cleanupDeletedMessages :: "bool \<Rightarrow> clock \<Rightarrow> state \<Rightarrow> state \<times> sweep_log" where
  "cleanupDeletedMessages store_ok clk s =
     (let twentyFourHoursAgo = clk 9 - 24 * 60 * 60 * 1000 in
      if \<not> store_ok then (s, SweepError)
      else
        let deletedCount = length (filter (expired twentyFourHoursAgo) (messages s));
            s' = s\<lparr>messages := filter (\<lambda>m. \<not> expired twentyFourHoursAgo m) (messages s)\<rparr>
        in (s', if deletedCount > 0 then Cleaned deletedCount else Quiet))"

definition sendMessage ::
  "extractor \<Rightarrow> clock \<Rightarrow> state \<Rightarrow> uid \<Rightarrow> string option \<Rightarrow> gid option \<Rightarrow> string option \<Rightarrow>
   (error + populated) \<times> state \<times> emission list" where
  "sendMessage xt clk s userId txt gId fl =
     (if \<not> truthy txt \<and> \<not> truthy fl then
        (Inl (BadRequest ''Message text or file is required''), s, [])
      else
        case gId of
          None \<Rightarrow> (Inl (BadRequest ''Group ID is required''), s, [])
        | Some g \<Rightarrow>
            (case findGroup s g of
               None \<Rightarrow> (Inl (NotFound ''Group not found''), s, [])
             | Some grp \<Rightarrow>
                 if \<not> (userId \<in> set (g_users grp) \<or> userId \<in> set (managers grp)) then
                   (Inl (Forbidden ''You are not a member of this group''), s, [])
                 else
                   let body_text = (if truthy txt then txt else Some []);
                       file_ref = (if truthy fl then fl else None);
                       (m, s1) = Message_create s
                          (\<lambda>i. new_message i userId (Some g) body_text file_ref (xt body_text)
                                  None [] (clk 58));
                       populatedMessage = populate s1 m
                   in (Inr populatedMessage, s1,
                       if io s
                       then [Emit (ToRoom (GroupRoom (Some g))) ''message:new''
                               (NewMessage populatedMessage None)]
                       else [])))"

record listing =
  l_messages :: "message list"
  l_page :: int
  l_limit :: int
  l_total :: nat
  hasMore :: bool
  nextCursor :: "time option"

text \<open>
  The query object: the group, no tombstones, the creation floor (the join date when the
  user has one, else seven days before now), and the optional \<^verbatim>\<open>before\<close> bound.
\<close>

definition message_query :: "clock \<Rightarrow> user \<Rightarrow> gid \<Rightarrow> time option \<Rightarrow> message \<Rightarrow> bool" where
  "message_query clk u g before m =
     (groupId m = Some g \<and> \<not> isDeleted (deleted m) \<and>
      (case groupJoinedAt u of
         Some userJoinedAt \<Rightarrow> userJoinedAt \<le> createdAt m
       | None \<Rightarrow> clk 125 - 7 * 24 * 60 * 60 * 1000 \<le> createdAt m) \<and>
      (case before of None \<Rightarrow> True | Some b \<Rightarrow> createdAt m < b))"

text \<open>
  The aggregation matches, sorts newest first, skips and limits, then sorts the page oldest
  first. The sender and deleter lookups that decorate each returned message are left out.
\<close>

definition aggregate :: "(message \<Rightarrow> bool) \<Rightarrow> nat \<Rightarrow> nat \<Rightarrow> message list \<Rightarrow> message list" where
  "aggregate query skip limit ms =
     sort_key createdAt (take limit (drop skip (sort_key (\<lambda>m. - createdAt m) (filter query ms))))"

text \<open>
  The store rejects a negative \<^verbatim>\<open>$skip\<close> and a \<^verbatim>\<open>$limit\<close> that is not positive; a user
  document that is gone makes \<^verbatim>\<open>user.groupJoinedAt\<close> throw. All three end in the 500 reply.
\<close>

definition getMessages ::
  "clock \<Rightarrow> state \<Rightarrow> uid \<Rightarrow> gid \<Rightarrow> int \<Rightarrow> int \<Rightarrow> time option \<Rightarrow> error + listing" where
  "getMessages clk s userId g page limit before =
     (let skip = (page - 1) * limit in
      case findGroup s g of
        None \<Rightarrow> Inl (NotFound ''Group not found'')
      | Some grp \<Rightarrow>
          if \<not> (userId \<in> set (g_users grp) \<or> userId \<in> set (managers grp)) then
            Inl (Forbidden ''Not authorized to view messages'')
          else
            (case users s userId of
               None \<Rightarrow> Inl (ServerError ''Cannot read properties of null'')
             | Some u \<Rightarrow>
                 let query = message_query clk u g before in
                 if skip < 0 \<or> limit \<le> 0 then Inl (ServerError ''invalid $skip or $limit'')
                 else
                   let msgs = aggregate query (nat skip) (nat limit) (messages s);
                       totalCount = length (filter query (messages s))
                   in Inr \<lparr>l_messages = msgs, l_page = page, l_limit = limit,
                           l_total = totalCount,
                           hasMore = (skip + int (length msgs) < int totalCount),
                           nextCursor = (if msgs = [] then None
                                         else Some (createdAt (last msgs)))\<rparr>))"

definition editMessage ::
  "extractor \<Rightarrow> clock \<Rightarrow> state \<Rightarrow> uid \<Rightarrow> mid \<Rightarrow> string option \<Rightarrow>
   (error + message) \<times> state \<times> emission list" where
  "editMessage xt clk s userId messageId txt =
     (case findMessage s messageId of
        None \<Rightarrow> (Inl (NotFound ''Message not found''), s, [])
      | Some m \<Rightarrow>
          if senderId m \<noteq> userId then
            (Inl (Forbidden ''Not authorized to edit this message''), s, [])
          else if clk 202 - createdAt m > 15 * 60 * 1000 then
            (Inl (BadRequest ''Message too old to edit''), s, [])
          else
            let m' = m\<lparr>m_text := txt, tags := xt txt,
                       edited := \<lparr>isEdited = True, editedAt = Some (clk 208)\<rparr>\<rparr>;
                s1 = save s m';
                s2 = (if forwardedFrom m' = None
                      then updateForwarded s1 messageId
                             (\<lambda>x. x\<lparr>m_text := txt, tags := xt txt,
                                     edited := \<lparr>isEdited = True, editedAt = Some (clk 219)\<rparr>\<rparr>)
                      else s1)
            in (Inr m', s2,
                if io s
                then [Emit (ToRoom (GroupRoom (groupId m'))) ''message:edited''
                        (EditedMessage (populate s2 m'))]
                else []))"

definition deleteMessage ::
  "clock \<Rightarrow> state \<Rightarrow> uid \<Rightarrow> role \<Rightarrow> mid \<Rightarrow> (error + unit) \<times> state \<times> emission list" where
  "deleteMessage clk s userId rl messageId =
     (case findMessage s messageId of
        None \<Rightarrow> (Inl (NotFound ''Message not found''), s, [])
      | Some m \<Rightarrow>
          let canDelete = (senderId m = userId \<or> rl = Admin \<or> rl = Manager) in
          if \<not> canDelete then
            (Inl (Forbidden ''Not authorized to delete this message''), s, [])
          else
            let m' = m\<lparr>deleted := \<lparr>isDeleted = True, deletedBy = Some userId,
                                    deletedAt = Some (clk 261)\<rparr>\<rparr>;
                s1 = save s m';
                s2 = (if forwardedFrom m' = None
                      then updateForwarded s1 messageId
                             (\<lambda>x. x\<lparr>deleted := \<lparr>isDeleted = True, deletedBy = Some userId,
                                                 deletedAt = Some (clk 274)\<rparr>\<rparr>)
                      else s1)
            in (Inr (), s2,
                if io s
                then [Emit (ToRoom (GroupRoom (groupId m'))) ''message:deleted''
                        (DeletedMessage messageId
                           (map_option (\<lambda>u. (u_id u, username u)) (users s2 userId)))]
                else []))"

section \<open>sockets/chatSocket.js\<close>

subsection \<open>Connection and disconnect\<close>



subsection \<open>The \<^verbatim>\<open>message:send\<close> handler\<close>

record send_payload =
  p_text :: "string option"
  p_file :: "string option"
  p_groupId :: "gid option"
  targetGroups :: "gid list option"

text \<open>
  The handler has no \<^verbatim>\<open>try\<close>: a statement that throws ends it there, with everything done
  so far kept and the acknowledgement never called. \<open>Acked i\<close> is \<^verbatim>\<open>ack({ ok: true, id })\<close>.
\<close>

datatype outcome = Acked mid | Thrown

text \<open>
  The notification loops: every populated member of the group but the sender gets the
  notification recorded and a \<^verbatim>\<open>notification:new\<close> in the personal room. Populating
  \<^verbatim>\<open>users managers\<close> keeps the ids that have a user document. \<open>flt\<close> says, for each
  recipient, which calls of the notification service reject.
\<close>

fun notify_members ::
  "(uid \<Rightarrow> faults) \<Rightarrow> uid \<Rightarrow> notification \<Rightarrow> uid list \<Rightarrow> state \<times> emission list \<Rightarrow>
   state \<times> emission list" where
  "notify_members flt sender n [] (s, es) = (s, es)"
| "notify_members flt sender n (member # rest) (s, es) =
     (if member \<noteq> sender
      then notify_members flt sender n rest
             (snd (sendNotification (flt member) s member n),
              es @ [Emit (ToRoom (UserRoom member)) ''notification:new'' (NotificationNew n)])
      else notify_members flt sender n rest (s, es))"

definition allMembers :: "state \<Rightarrow> group \<Rightarrow> uid list" where
  "allMembers s g = filter (\<lambda>i. users s i \<noteq> None) (g_users g @ managers g)"

text \<open>\<^verbatim>\<open>text || 'Sent a file'\<close>\<close>

definition textOrFile :: "string option \<Rightarrow> string" where
  "textOrFile t = (case t of None \<Rightarrow> ''Sent a file''
                   | Some v \<Rightarrow> if v = [] then ''Sent a file'' else v)"

text \<open>The loop that persists and broadcasts one copy per forwarded group. \<open>origin\<close> is
  \<^verbatim>\<open>populatedMsg.groupId\<close>; reading its name throws when it is null.\<close>

fun forward_copies ::
  "clock \<Rightarrow> user \<Rightarrow> send_payload \<Rightarrow> string list \<Rightarrow> gid option \<Rightarrow> mid \<Rightarrow> gid list \<Rightarrow>
   (string \<times> string) option \<Rightarrow> group list \<Rightarrow> state \<times> emission list \<Rightarrow>
   state \<times> emission list \<times> bool" where
  "forward_copies clk u p tgs targetGroupId primary fwd_ids origin [] (s, es) = (s, es, False)"
| "forward_copies clk u p tgs targetGroupId primary fwd_ids origin (g # gs) (s, es) =
     (let (forwardedMsg, s1) = Message_create s
             (\<lambda>i. new_message i (u_id u) (Some (g_id g)) (p_text p) (p_file p) tgs
                     (Some primary) fwd_ids (clk 238));
          populatedForwardedMsg = populate s1 forwardedMsg
      in case origin of
           None \<Rightarrow> (s1, es, True)
         | Some (nm, rg) \<Rightarrow>
             forward_copies clk u p tgs targetGroupId primary fwd_ids origin gs
               (s1, es @ [Emit (ToRoom (GroupRoom (Some (g_id g)))) ''message:new''
                            (NewMessage populatedForwardedMsg (Some (targetGroupId, nm)))]))"

text \<open>The notifications to the forwarded groups; the title reads \<^verbatim>\<open>group.name\<close> of the
  target group, which throws when that group was not found.\<close>

fun notify_forwarded ::
  "clock \<Rightarrow> (uid \<Rightarrow> faults) \<Rightarrow> user \<Rightarrow> send_payload \<Rightarrow> group option \<Rightarrow> group list \<Rightarrow>
   state \<times> emission list \<Rightarrow> state \<times> emission list \<times> bool" where
  "notify_forwarded clk flt u p grp [] (s, es) = (s, es, False)"
| "notify_forwarded clk flt u p grp (forwardedGroup # gs) (s, es) =
     (case findGroup s (g_id forwardedGroup) of
        None \<Rightarrow> notify_forwarded clk flt u p grp gs (s, es)
      | Some forwardedGroupData \<Rightarrow>
          (case grp of
             None \<Rightarrow> (s, es, True)
           | Some g \<Rightarrow>
               let forwardedNotification =
                     \<lparr>ntype = ''message'',
                      title = ''New message from '' @ username u @ '' (from '' @ g_name g @ '')'',
                      nmessage = textOrFile (p_text p),
                      n_groupId = Some (g_id forwardedGroup),
                      groupName = g_name forwardedGroup,
                      n_senderId = Some (u_id u),
                      senderUsername = Some (username u),
                      n_createdAt = clk 301\<rparr>
               in notify_forwarded clk flt u p grp gs
                    (notify_members flt (u_id u) forwardedNotification
                       (allMembers s forwardedGroupData) (s, es))))"

definition forwardedGroups :: "extractor \<Rightarrow> state \<Rightarrow> send_payload \<Rightarrow> group list" where
  "forwardedGroups xt s p =
     (let by_tags = (if xt (p_text p) \<noteq> []
                     then filter (\<lambda>g. region g \<in> set (xt (p_text p))) (groups s)
                     else [])
      in case targetGroups p of
           None \<Rightarrow> by_tags
         | Some tg \<Rightarrow>
             if tg \<noteq> [] then filter (\<lambda>g. g_id g \<in> set tg) (groups s) else by_tags)"

definition message_send ::
  "extractor \<Rightarrow> clock \<Rightarrow> (uid \<Rightarrow> faults) \<Rightarrow> state \<Rightarrow> user \<Rightarrow> send_payload \<Rightarrow>
   state \<times> emission list \<times> outcome" where
  "message_send xt clk flt s u p =
     (let tgs = xt (p_text p);
          targetGroupId = (case p_groupId p of Some g \<Rightarrow> Some g | None \<Rightarrow> u_groupId u);
          fwd = forwardedGroups xt s p;
          (msg, s1) = Message_create s
             (\<lambda>i. new_message i (u_id u) targetGroupId (p_text p) (p_file p) tgs
                     None (map g_id fwd) (clk 217));
          populatedMsg = populate s1 msg;
          es1 = [Emit (ToRoom (GroupRoom targetGroupId)) ''message:new''
                   (NewMessage populatedMsg None)];
          (s2, es2, thrown) =
             forward_copies clk u p tgs targetGroupId (m_id msg) (map g_id fwd)
               (groupInfo populatedMsg) fwd (s1, es1)
      in if thrown then (s2, es2, Thrown)
         else
           let grp = (case targetGroupId of None \<Rightarrow> None | Some g \<Rightarrow> findGroup s2 g);
               (s3, es3) =
                 (case grp of
                    None \<Rightarrow> (s2, es2)
                  | Some g \<Rightarrow>
                      notify_members flt (u_id u)
                        \<lparr>ntype = ''message'',
                         title = ''New message from '' @ username u,
                         nmessage = textOrFile (p_text p),
                         n_groupId = targetGroupId,
                         groupName = g_name g,
                         n_senderId = Some (u_id u),
                         senderUsername = Some (username u),
                         n_createdAt = clk 275\<rparr>
                        (allMembers s2 g) (s2, es2));
               (s4, es4, thrown') = notify_forwarded clk flt u p grp fwd (s3, es3)
           in if thrown' then (s4, es4, Thrown) else (s4, es4, Acked (m_id msg)))"

section \<open>What the claims count\<close>

text \<open>The \<^verbatim>\<open>message:new\<close> broadcasts among what a handler emitted.\<close>

definition message_new :: "emission list \<Rightarrow> emission list" where
  "message_new es = filter (\<lambda>e. event e = ''message:new'') es"

text \<open>The distinct group regions that the tags extracted from a payload match.\<close>

definition matched_regions :: "extractor \<Rightarrow> state \<Rightarrow> send_payload \<Rightarrow> string list" where
  "matched_regions xt s p =
     remdups (filter (\<lambda>r. r \<in> set (xt (p_text p))) (map region (groups s)))"

text \<open>The target group of a send: \<^verbatim>\<open>groupId || user.groupId\<close>.\<close>

definition target_of :: "user \<Rightarrow> send_payload \<Rightarrow> gid option" where
  "target_of u p = (case p_groupId p of Some g \<Rightarrow> Some g | None \<Rightarrow> u_groupId u)"

text \<open>The stamps an edit and a delete write.\<close>

definition edit_of :: "extractor \<Rightarrow> string option \<Rightarrow> time \<Rightarrow> message \<Rightarrow> message" where
  "edit_of xt t stamp x =
     x\<lparr>m_text := t, tags := xt t, edited := \<lparr>isEdited = True, editedAt = Some stamp\<rparr>\<rparr>"

definition tombstone :: "uid \<Rightarrow> time \<Rightarrow> message \<Rightarrow> message" where
  "tombstone a stamp x =
     x\<lparr>deleted := \<lparr>isDeleted = True, deletedBy = Some a, deletedAt = Some stamp\<rparr>\<rparr>"


section \<open>Example data\<close>

text \<open>
  Three users and three groups, two of which share the region \<open>north\<close>; a tag extractor that
  finds the one mention of the example text; a clock that has advanced between any two
  lines; a thread of one original and its two forwarded copies.
\<close>

definition ex_alice :: user where
  "ex_alice = \<lparr>u_id = 1, username = ''alice'', u_role = Member, u_groupId = Some 10,
               isOnline = False, lastSeen = None, groupJoinedAt = None, notifications = []\<rparr>"

definition ex_bob :: user where
  "ex_bob = \<lparr>u_id = 2, username = ''bob'', u_role = Manager, u_groupId = Some 20,
             isOnline = False, lastSeen = None, groupJoinedAt = Some 2000, notifications = []\<rparr>"

definition ex_carol :: user where
  "ex_carol = \<lparr>u_id = 3, username = ''carol'', u_role = Admin, u_groupId = None,
               isOnline = False, lastSeen = None, groupJoinedAt = None, notifications = []\<rparr>"

definition ex_general :: group where
  "ex_general = \<lparr>g_id = 10, g_name = ''General'', region = ''west'', g_users = [1, 2],
                 managers = []\<rparr>"

definition ex_north_a :: group where
  "ex_north_a = \<lparr>g_id = 20, g_name = ''North A'', region = ''north'', g_users = [2],
                 managers = []\<rparr>"

definition ex_north_b :: group where
  "ex_north_b = \<lparr>g_id = 30, g_name = ''North B'', region = ''north'', g_users = [3],
                 managers = [2]\<rparr>"

definition ex_state :: state where
  "ex_state = \<lparr>users = [1 \<mapsto> ex_alice, 2 \<mapsto> ex_bob, 3 \<mapsto> ex_carol],
               groups = [ex_general, ex_north_a, ex_north_b],
               messages = [], nextId = 0, cache = Map.empty, io = True\<rparr>"

definition ex_tags :: extractor where
  "ex_tags t = (if t = Some ''hi @north'' then [''north''] else [])"

definition ex_clock :: clock where
  "ex_clock l = 1000 + int l"

definition ex_reliable :: "uid \<Rightarrow> faults" where
  "ex_reliable i = no_faults"

definition ex_cache_down :: faults where
  "ex_cache_down = \<lparr>db_down = False, get_down = False, setex_down = True\<rparr>"

definition ex_note :: notification where
  "ex_note = \<lparr>ntype = ''message'', title = ''New message from bob'', nmessage = ''hello'',
              n_groupId = Some 10, groupName = ''General'', n_senderId = Some 2,
              senderUsername = Some ''bob'', n_createdAt = 1000\<rparr>"

definition ex_mention :: send_payload where
  "ex_mention = \<lparr>p_text = Some ''hi @north'', p_file = None, p_groupId = None,
                 targetGroups = None\<rparr>"

definition ex_plain :: send_payload where
  "ex_plain = \<lparr>p_text = Some ''hello'', p_file = None, p_groupId = None,
               targetGroups = Some []\<rparr>"

definition ex_blank :: send_payload where
  "ex_blank = \<lparr>p_text = Some [], p_file = None, p_groupId = None, targetGroups = None\<rparr>"

definition ex_original :: message where
  "ex_original = new_message 0 1 (Some 10) (Some ''hi @north'') None [''north''] None [20, 30] 1000"

definition ex_copy_a :: message where
  "ex_copy_a = new_message 1 1 (Some 20) (Some ''hi @north'') None [''north''] (Some 0) [20, 30] 1001"

definition ex_copy_b :: message where
  "ex_copy_b = new_message 2 1 (Some 30) (Some ''hi @north'') None [''north''] (Some 0) [20, 30] 1002"

definition ex_thread :: state where
  "ex_thread = ex_state\<lparr>messages := [ex_original, ex_copy_a, ex_copy_b], nextId := 3\<rparr>"

text \<open>A later clock: one hundred hours after the epoch at every line, and three messages
  of group 10, tombstoned 25 hours ago, tombstoned 23 hours ago, and not tombstoned.\<close>

definition ex_later :: clock where
  "ex_later l = 360000000"

definition ex_purged :: message where
  "ex_purged = tombstone 2 270000000 (new_message 0 1 (Some 10) (Some ''a'') None [] None [] 1000)"

definition ex_kept :: message where
  "ex_kept = tombstone 2 277200000 (new_message 1 1 (Some 10) (Some ''b'') None [] None [] 1500)"

definition ex_live :: message where
  "ex_live = new_message 2 1 (Some 10) (Some ''c'') None [] None [] 359000000"

definition ex_archive :: state where
  "ex_archive = ex_state\<lparr>messages := [ex_purged, ex_kept, ex_live], nextId := 3\<rparr>"

section \<open>Lemmas about the model\<close>

subsection \<open>The notification service leaves the message store alone\<close>

lemma sendNotification_frame:
  "messages (snd (sendNotification f s i n)) = messages s \<and>
   groups (snd (sendNotification f s i n)) = groups s \<and>
   nextId (snd (sendNotification f s i n)) = nextId s \<and>
   io (snd (sendNotification f s i n)) = io s"
  by (simp add: sendNotification_def Let_def)

lemma cache_untouched:
  "cache (snd (sendNotification f s i n)) = cache s"
  "snd (getNotifications f s i) = s"
  by (simp_all add: sendNotification_def getNotifications_def redis_get_def redis_setex_def
        Let_def split: option.split)

lemma notify_members_frame:
  "\<exists>s' fs. notify_members flt a n ms (s, es) = (s', es @ fs) \<and>
     messages s' = messages s \<and> groups s' = groups s \<and> nextId s' = nextId s \<and> io s' = io s \<and>
     (\<forall>e \<in> set fs. event e = ''notification:new'')"
proof (induction ms arbitrary: s es)
  case Nil
  then show ?case by simp
next
  case (Cons member rest)
  show ?case
  proof (cases "member = a")
    case True
    with Cons.IH[of s es] show ?thesis by simp
  next
    case False
    let ?s1 = "snd (sendNotification (flt member) s member n)"
    let ?e = "Emit (ToRoom (UserRoom member)) ''notification:new'' (NotificationNew n)"
    from Cons.IH[of ?s1 "es @ [?e]"] obtain s' fs where
      h: "notify_members flt a n rest (?s1, es @ [?e]) = (s', (es @ [?e]) @ fs)"
         "messages s' = messages ?s1" "groups s' = groups ?s1" "nextId s' = nextId ?s1"
         "io s' = io ?s1" "\<forall>e \<in> set fs. event e = ''notification:new''"
      by blast
    have "notify_members flt a n (member # rest) (s, es) = (s', es @ (?e # fs))"
      using False h(1) by simp
    moreover have "\<forall>e \<in> set (?e # fs). event e = ''notification:new''"
      using h(6) by simp
    ultimately show ?thesis
      using h(2-5) sendNotification_frame[of "flt member" s member n] by metis
  qed
qed

subsection \<open>The send handler, phase by phase\<close>

lemma findGroup_cong: "groups s' = groups s \<Longrightarrow> findGroup s' = findGroup s"
  by (simp add: findGroup_def fun_eq_iff)

lemma notify_forwarded_frame:
  "\<exists>s' fs th. notify_forwarded clk flt u p grp gs (s, es) = (s', es @ fs, th) \<and>
     messages s' = messages s \<and> groups s' = groups s \<and> nextId s' = nextId s \<and> io s' = io s \<and>
     (\<forall>e \<in> set fs. event e = ''notification:new'') \<and>
     (grp \<noteq> None \<or> gs = [] \<longrightarrow> \<not> th)"
proof (induction gs arbitrary: s es)
  case Nil
  show ?case by (intro exI[of _ s] exI[of _ "[]"] exI[of _ False]) simp
next
  case (Cons g gs)
  show ?case
  proof (cases "findGroup s (g_id g)")
    case None
    with Cons.IH[of s es] show ?thesis by auto
  next
    case (Some gd)
    show ?thesis
    proof (cases grp)
      case None
      with Some show ?thesis by auto
    next
      case (Some tgrp)
      let ?n = "\<lparr>ntype = ''message'',
                      title = ''New message from '' @ username u @ '' (from '' @ g_name tgrp @ '')'',
                      nmessage = textOrFile (p_text p),
                      n_groupId = Some (g_id g),
                      groupName = g_name g,
                      n_senderId = Some (u_id u),
                      senderUsername = Some (username u),
                      n_createdAt = clk 301\<rparr>"
      obtain s1 fs1 where
        a: "notify_members flt (u_id u) ?n (allMembers s gd) (s, es) = (s1, es @ fs1)"
           "messages s1 = messages s" "groups s1 = groups s" "nextId s1 = nextId s" "io s1 = io s"
           "\<forall>e \<in> set fs1. event e = ''notification:new''"
        using notify_members_frame[of flt "u_id u" ?n "allMembers s gd" s es] by blast
      obtain s' fs th where
        b: "notify_forwarded clk flt u p grp gs (s1, es @ fs1) = (s', (es @ fs1) @ fs, th)"
           "messages s' = messages s1" "groups s' = groups s1" "nextId s' = nextId s1" "io s' = io s1"
           "\<forall>e \<in> set fs. event e = ''notification:new''"
           "grp \<noteq> None \<or> gs = [] \<longrightarrow> \<not> th"
        using Cons.IH[of s1 "es @ fs1"] by blast
      have "notify_forwarded clk flt u p grp (g # gs) (s, es) = (s', es @ (fs1 @ fs), th)"
        using \<open>findGroup s (g_id g) = Some gd\<close> Some a(1) b(1) by simp
      moreover have "\<forall>e \<in> set (fs1 @ fs). event e = ''notification:new''"
        using a(6) b(6) by auto
      moreover have "grp \<noteq> None \<or> g # gs = [] \<longrightarrow> \<not> th" using b(7) Some by simp
      ultimately show ?thesis using a(2-5) b(2-5) by metis
    qed
  qed
qed

lemma forward_copies_ok:
  "\<exists>cs fs. forward_copies clk u p tgs tg primary ids (Some (nm, rg)) gs (s, es)
       = (s\<lparr>messages := messages s @ cs, nextId := nextId s + length gs\<rparr>, es @ fs, False) \<and>
     length cs = length gs \<and>
     (\<forall>c \<in> set cs. forwardedFrom c = Some primary) \<and>
     map groupId cs = map (\<lambda>g. Some (g_id g)) gs \<and>
     map dest fs = map (\<lambda>g. ToRoom (GroupRoom (Some (g_id g)))) gs \<and>
     (\<forall>e \<in> set fs. event e = ''message:new'')"
proof (induction gs arbitrary: s es)
  case Nil
  then show ?case by simp
next
  case (Cons g gs)
  let ?m = "new_message (nextId s) (u_id u) (Some (g_id g)) (p_text p) (p_file p) tgs
                     (Some primary) ids (clk 238)"
  let ?s1 = "s\<lparr>messages := messages s @ [?m], nextId := Suc (nextId s)\<rparr>"
  let ?e = "Emit (ToRoom (GroupRoom (Some (g_id g)))) ''message:new''
                            (NewMessage (populate ?s1 ?m) (Some (tg, nm)))"
  obtain cs fs where
    h: "forward_copies clk u p tgs tg primary ids (Some (nm, rg)) gs (?s1, es @ [?e])
       = (?s1\<lparr>messages := messages ?s1 @ cs, nextId := nextId ?s1 + length gs\<rparr>, (es @ [?e]) @ fs, False)"
     "length cs = length gs"
     "\<forall>c \<in> set cs. forwardedFrom c = Some primary"
     "map groupId cs = map (\<lambda>g. Some (g_id g)) gs"
     "map dest fs = map (\<lambda>g. ToRoom (GroupRoom (Some (g_id g)))) gs"
     "\<forall>e \<in> set fs. event e = ''message:new''"
    using Cons.IH[of ?s1 "es @ [?e]"] by blast
  have "forward_copies clk u p tgs tg primary ids (Some (nm, rg)) (g # gs) (s, es)
       = (s\<lparr>messages := messages s @ (?m # cs), nextId := nextId s + length (g # gs)\<rparr>, es @ (?e # fs), False)"
    using h(1) by (simp add: Message_create_def Let_def)
  moreover have "length (?m # cs) = length (g # gs)" using h(2) by simp
  moreover have "\<forall>c \<in> set (?m # cs). forwardedFrom c = Some primary"
    using h(3) by (simp add: new_message_def)
  moreover have "map groupId (?m # cs) = map (\<lambda>g. Some (g_id g)) (g # gs)"
    using h(4) by (simp add: new_message_def)
  moreover have "map dest (?e # fs) = map (\<lambda>g. ToRoom (GroupRoom (Some (g_id g)))) (g # gs)"
    using h(5) by simp
  moreover have "\<forall>e \<in> set (?e # fs). event e = ''message:new''" using h(6) by simp
  ultimately show ?case by blast
qed

lemma forwardedGroups_tags:
  "targetGroups p = None \<or> targetGroups p = Some [] \<Longrightarrow>
   forwardedGroups xt s p = filter (\<lambda>g. region g \<in> set (xt (p_text p))) (groups s)"
  by (auto simp: forwardedGroups_def Let_def)

lemma message_send_run:
  assumes tgs: "targetGroups p = None \<or> targetGroups p = Some []"
      and ex: "filter (\<lambda>g. region g \<in> set (xt (p_text p))) (groups s) = [] \<or>
               (\<exists>g grp. (case p_groupId p of Some g \<Rightarrow> Some g | None \<Rightarrow> u_groupId u) = Some g \<and>
                        findGroup s g = Some grp)"
  shows "\<exists>s' es primary copies.
           message_send xt clk flt s u p = (s', es, Acked (m_id primary)) \<and>
           messages s' = messages s @ primary # copies \<and>
           forwardedFrom primary = None \<and>
           groupId primary = (case p_groupId p of Some g \<Rightarrow> Some g | None \<Rightarrow> u_groupId u) \<and>
           length copies = length (filter (\<lambda>g. region g \<in> set (xt (p_text p))) (groups s)) \<and>
           (\<forall>c \<in> set copies. forwardedFrom c = Some (m_id primary)) \<and>
           map groupId copies = map (\<lambda>g. Some (g_id g)) (filter (\<lambda>g. region g \<in> set (xt (p_text p))) (groups s)) \<and>
           map dest (filter (\<lambda>e. event e = ''message:new'') es) =
             ToRoom (GroupRoom (case p_groupId p of Some g \<Rightarrow> Some g | None \<Rightarrow> u_groupId u)) #
             map (\<lambda>g. ToRoom (GroupRoom (Some (g_id g)))) (filter (\<lambda>g. region g \<in> set (xt (p_text p))) (groups s))"
proof -
  define fwd where "fwd = filter (\<lambda>g. region g \<in> set (xt (p_text p))) (groups s)"
  define tg where "tg = (case p_groupId p of Some g \<Rightarrow> Some g | None \<Rightarrow> u_groupId u)"
  define msg where "msg = new_message (nextId s) (u_id u) tg (p_text p) (p_file p) (xt (p_text p))
                     None (map g_id fwd) (clk 217)"
  define s1 where "s1 = s\<lparr>messages := messages s @ [msg], nextId := Suc (nextId s)\<rparr>"
  define es1 where "es1 = [Emit (ToRoom (GroupRoom tg)) ''message:new'' (NewMessage (populate s1 msg) None)]"
  have fg: "forwardedGroups xt s p = fwd"
    using tgs by (simp add: forwardedGroups_tags fwd_def)
  have cr: "Message_create s (\<lambda>i. new_message i (u_id u) tg (p_text p) (p_file p) (xt (p_text p))
                     None (map g_id fwd) (clk 217)) = (msg, s1)"
    by (simp add: Message_create_def Let_def msg_def s1_def)
  have fg1: "findGroup s1 = findGroup s"
    by (rule findGroup_cong) (simp add: s1_def)
  have gi: "groupInfo (populate s1 msg) =
              (case tg of None \<Rightarrow> None | Some g \<Rightarrow> map_option (\<lambda>x. (g_name x, region x)) (findGroup s g))"
    by (simp add: populate_def msg_def new_message_def fg1 split: option.split)
  have "\<exists>cs fs. forward_copies clk u p (xt (p_text p)) tg (m_id msg) (map g_id fwd)
                   (groupInfo (populate s1 msg)) fwd (s1, es1)
                 = (s1\<lparr>messages := messages s1 @ cs, nextId := nextId s1 + length fwd\<rparr>, es1 @ fs, False) \<and>
     length cs = length fwd \<and>
     (\<forall>c \<in> set cs. forwardedFrom c = Some (m_id msg)) \<and>
     map groupId cs = map (\<lambda>g. Some (g_id g)) fwd \<and>
     map dest fs = map (\<lambda>g. ToRoom (GroupRoom (Some (g_id g)))) fwd \<and>
     (\<forall>e \<in> set fs. event e = ''message:new'')"
  proof (cases "fwd = []")
    case True
    then show ?thesis by simp
  next
    case False
    with ex obtain g grp where "tg = Some g" "findGroup s g = Some grp"
      by (auto simp: fwd_def tg_def)
    then have "groupInfo (populate s1 msg) = Some (g_name grp, region grp)"
      by (simp add: gi)
    then show ?thesis
      using forward_copies_ok[of clk u p "xt (p_text p)" tg "m_id msg" "map g_id fwd"
                                 "g_name grp" "region grp" fwd s1 es1]
      by simp
  qed
  then obtain cs fs where
    fc: "forward_copies clk u p (xt (p_text p)) tg (m_id msg) (map g_id fwd)
                   (groupInfo (populate s1 msg)) fwd (s1, es1)
                 = (s1\<lparr>messages := messages s1 @ cs, nextId := nextId s1 + length fwd\<rparr>, es1 @ fs, False)"
     "length cs = length fwd"
     "\<forall>c \<in> set cs. forwardedFrom c = Some (m_id msg)"
     "map groupId cs = map (\<lambda>g. Some (g_id g)) fwd"
     "map dest fs = map (\<lambda>g. ToRoom (GroupRoom (Some (g_id g)))) fwd"
     "\<forall>e \<in> set fs. event e = ''message:new''"
    by blast
  define s2 where "s2 = s1\<lparr>messages := messages s1 @ cs, nextId := nextId s1 + length fwd\<rparr>"
  define es2 where "es2 = es1 @ fs"
  define grp where "grp = (case tg of None \<Rightarrow> None | Some g \<Rightarrow> findGroup s2 g)"
  have grp_ok: "fwd = [] \<or> grp \<noteq> None"
  proof -
    have "findGroup s2 = findGroup s"
      by (rule findGroup_cong) (simp add: s2_def s1_def)
    with ex show ?thesis by (auto simp: grp_def fwd_def tg_def)
  qed
  define n where "n = \<lparr>ntype = ''message'',
                         title = ''New message from '' @ username u,
                         nmessage = textOrFile (p_text p),
                         n_groupId = tg,
                         groupName = g_name (the grp),
                         n_senderId = Some (u_id u),
                         senderUsername = Some (username u),
                         n_createdAt = clk 275\<rparr>"
  obtain s3 fs3 where
    n1: "(case grp of None \<Rightarrow> (s2, es2)
          | Some g \<Rightarrow> notify_members flt (u_id u)
                        \<lparr>ntype = ''message'',
                         title = ''New message from '' @ username u,
                         nmessage = textOrFile (p_text p),
                         n_groupId = tg,
                         groupName = g_name g,
                         n_senderId = Some (u_id u),
                         senderUsername = Some (username u),
                         n_createdAt = clk 275\<rparr>
                        (allMembers s2 g) (s2, es2)) = (s3, es2 @ fs3)"
        "messages s3 = messages s2" "\<forall>e \<in> set fs3. event e = ''notification:new''"
  proof (cases grp)
    case None
    show ?thesis by (rule that[of s2 "[]"]) (simp_all add: None)
  next
    case (Some g)
    from notify_members_frame[of flt "u_id u" _ "allMembers s2 g" s2 es2] Some that
    show ?thesis by (metis (no_types, lifting) option.simps(5))
  qed
  obtain s4 fs4 th where
    n2: "notify_forwarded clk flt u p grp fwd (s3, es2 @ fs3) = (s4, (es2 @ fs3) @ fs4, th)"
        "messages s4 = messages s3" "\<forall>e \<in> set fs4. event e = ''notification:new''"
        "grp \<noteq> None \<or> fwd = [] \<longrightarrow> \<not> th"
    using notify_forwarded_frame[of clk flt u p grp fwd s3 "es2 @ fs3"] by blast
  have th: "\<not> th" using n2(4) grp_ok by blast
  have run: "message_send xt clk flt s u p = (s4, es2 @ fs3 @ fs4, Acked (m_id msg))"
    unfolding message_send_def Let_def fg tg_def[symmetric] cr prod.case fc
      s2_def[symmetric] es1_def[symmetric] es2_def[symmetric] grp_def[symmetric] n1 n2
    using th by simp
  have msgs: "messages s4 = messages s @ msg # cs"
    by (simp add: n2(2) n1(2) s2_def s1_def)
  have new: "filter (\<lambda>e. event e = ''message:new'') (es2 @ fs3 @ fs4) = es1 @ fs"
    using n1(3) n2(3) fc(6) by (auto simp: es2_def es1_def filter_id_conv filter_empty_conv)
  have "map dest (filter (\<lambda>e. event e = ''message:new'') (es2 @ fs3 @ fs4)) =
          ToRoom (GroupRoom tg) # map (\<lambda>g. ToRoom (GroupRoom (Some (g_id g)))) fwd"
    unfolding new using fc(5) by (simp add: es1_def)
  moreover have "forwardedFrom msg = None" "groupId msg = tg"
    by (simp_all add: msg_def new_message_def)
  ultimately have final:
    "message_send xt clk flt s u p = (s4, es2 @ fs3 @ fs4, Acked (m_id msg)) \<and>
     messages s4 = messages s @ msg # cs \<and>
     forwardedFrom msg = None \<and> groupId msg = tg \<and> length cs = length fwd \<and>
     (\<forall>c \<in> set cs. forwardedFrom c = Some (m_id msg)) \<and>
     map groupId cs = map (\<lambda>g. Some (g_id g)) fwd \<and>
     map dest (filter (\<lambda>e. event e = ''message:new'') (es2 @ fs3 @ fs4)) =
       ToRoom (GroupRoom tg) # map (\<lambda>g. ToRoom (GroupRoom (Some (g_id g)))) fwd"
    using run msgs fc(2,3,4) by simp
  show ?thesis
    unfolding fwd_def[symmetric] tg_def[symmetric]
    apply (rule exI[of _ s4])
    apply (rule exI[of _ "es2 @ fs3 @ fs4"])
    apply (rule exI[of _ msg])
    apply (rule exI[of _ cs])
    apply (rule final)
    done
qed

subsection \<open>Edit, delete and the listing\<close>

lemma findMessage_mem: "findMessage s i = Some m \<Longrightarrow> m \<in> set (messages s) \<and> m_id m = i"
  unfolding findMessage_def by (auto simp: find_Some_iff)

lemma find_map_id:
  assumes "\<And>x. m_id (f x) = m_id x"
  shows "find (\<lambda>m. m_id m = i) (map f xs) = map_option f (find (\<lambda>m. m_id m = i) xs)"
  using assms by (induction xs) auto

lemma edit_refused_sender:
  "findMessage s i = Some m \<Longrightarrow> senderId m \<noteq> a \<Longrightarrow>
   editMessage xt clk s a i t = (Inl (Forbidden ''Not authorized to edit this message''), s, [])"
  by (simp add: editMessage_def)

lemma edit_refused_window:
  "findMessage s i = Some m \<Longrightarrow> senderId m = a \<Longrightarrow> clk 202 - createdAt m > 15 * 60 * 1000 \<Longrightarrow>
   editMessage xt clk s a i t = (Inl (BadRequest ''Message too old to edit''), s, [])"
  by (simp add: editMessage_def)

lemma edit_done:
  assumes "findMessage s i = Some m" "senderId m = a" "clk 202 - createdAt m \<le> 15 * 60 * 1000"
  shows "fst (editMessage xt clk s a i t) = Inr (edit_of xt t (clk 208) m)"
    and "messages (fst (snd (editMessage xt clk s a i t))) =
           map (\<lambda>x. if m_id x = i then edit_of xt t (clk 208) m
                    else if forwardedFrom m = None \<and> forwardedFrom x = Some i
                         then edit_of xt t (clk 219) x
                         else x) (messages s)"
    and "snd (snd (editMessage xt clk s a i t)) =
           (if io s
            then [Emit (ToRoom (GroupRoom (groupId m))) ''message:edited''
                    (EditedMessage (populate (fst (snd (editMessage xt clk s a i t)))
                                             (edit_of xt t (clk 208) m)))]
            else [])"
    and "fst (snd (editMessage xt clk s a i t)) =
           s\<lparr>messages := messages (fst (snd (editMessage xt clk s a i t)))\<rparr>"
  using assms findMessage_mem[OF assms(1)]
  by (auto simp add: editMessage_def edit_of_def Let_def save_def updateForwarded_def)

lemma delete_refused:
  "findMessage s i = Some m \<Longrightarrow> \<not> (senderId m = a \<or> r = Manager \<or> r = Admin) \<Longrightarrow>
   deleteMessage clk s a r i = (Inl (Forbidden ''Not authorized to delete this message''), s, [])"
  by (simp add: deleteMessage_def)

lemma delete_done:
  assumes "findMessage s i = Some m" "senderId m = a \<or> r = Manager \<or> r = Admin"
  shows "fst (deleteMessage clk s a r i) = Inr ()"
    and "messages (fst (snd (deleteMessage clk s a r i))) =
           map (\<lambda>x. if m_id x = i then tombstone a (clk 261) m
                    else if forwardedFrom m = None \<and> forwardedFrom x = Some i
                         then tombstone a (clk 274) x
                         else x) (messages s)"
  using assms findMessage_mem[OF assms(1)]
  by (auto simp add: deleteMessage_def tombstone_def Let_def save_def updateForwarded_def)

lemma sweep_keeps:
  "set (messages (fst (cleanupDeletedMessages True clk s))) =
     {m \<in> set (messages s).
        \<not> (isDeleted (deleted m) \<and>
           (\<exists>t. deletedAt (deleted m) = Some t \<and> clk 9 - t > 24 * 60 * 60 * 1000))}"
  by (auto simp: cleanupDeletedMessages_def Let_def expired_def split: option.splits)

lemma set_aggregate: "set (aggregate q k n ms) \<subseteq> {m \<in> set ms. q m}"
proof -
  have "set (take n (drop k (sort_key (\<lambda>m. - createdAt m) (filter q ms))))
          \<subseteq> set (sort_key (\<lambda>m. - createdAt m) (filter q ms))"
    by (meson set_take_subset set_drop_subset subset_trans)
  then show ?thesis by (auto simp: aggregate_def)
qed

lemma aggregate_first_page:
  assumes "length (filter q ms) \<le> n"
  shows "set (aggregate q 0 n ms) = {m \<in> set ms. q m}"
  using assms by (auto simp: aggregate_def)

lemma getMessages_Inr:
  assumes "getMessages clk s a g page limit before = Inr l" "users s a = Some u"
  shows "l_messages l = aggregate (message_query clk u g before) (nat ((page - 1) * limit))
                          (nat limit) (messages s)"
proof (cases "findGroup s g")
  case None
  with assms show ?thesis by (simp add: getMessages_def Let_def)
next
  case (Some grp)
  with assms show ?thesis
    by (auto simp add: getMessages_def Let_def split: if_splits)
qed

section \<open>The claims\<close>

subsection \<open>C1: what a realtime send persists and broadcasts\<close>

text \<open>
  Claim C1, as the code has it. For a \<^verbatim>\<open>message:send\<close> with no \<^verbatim>\<open>targetGroups\<close>, let the
  forwarded groups be the groups whose region is one of the tags extracted from the text,
  N of them (two groups of one region count twice). If N is 0, or the target group of the
  send exists, then the handler acknowledges with the id of the primary record, exactly
  N+1 records are appended to the store (the primary, with no \<open>forwardedFrom\<close>, then one
  copy per forwarded group in that group, each with \<open>forwardedFrom\<close> the primary's id), and
  exactly N+1 \<^verbatim>\<open>message:new\<close> are emitted: one to the target group's room, then one to each
  forwarded group's room. With no tag extracted N is 0: one record, one broadcast.
\<close>

theorem send_fanout:
  assumes "targetGroups p = None \<or> targetGroups p = Some []"
      and "forwardedGroups xt s p = [] \<or>
           (\<exists>g grp. target_of u p = Some g \<and> findGroup s g = Some grp)"
  shows "forwardedGroups xt s p = filter (\<lambda>g. region g \<in> set (xt (p_text p))) (groups s) \<and>
         (xt (p_text p) = [] \<longrightarrow> forwardedGroups xt s p = []) \<and>
         (\<exists>s' es primary copies.
            message_send xt clk flt s u p = (s', es, Acked (m_id primary)) \<and>
            messages s' = messages s @ primary # copies \<and>
            forwardedFrom primary = None \<and>
            groupId primary = target_of u p \<and>
            length copies = length (forwardedGroups xt s p) \<and>
            (\<forall>c \<in> set copies. forwardedFrom c = Some (m_id primary)) \<and>
            map groupId copies = map (\<lambda>g. Some (g_id g)) (forwardedGroups xt s p) \<and>
            map dest (message_new es) =
              ToRoom (GroupRoom (target_of u p)) #
              map (\<lambda>g. ToRoom (GroupRoom (Some (g_id g)))) (forwardedGroups xt s p))"
proof -
  have fg: "forwardedGroups xt s p = filter (\<lambda>g. region g \<in> set (xt (p_text p))) (groups s)"
    by (rule forwardedGroups_tags[OF assms(1)])
  have none: "xt (p_text p) = [] \<longrightarrow> forwardedGroups xt s p = []"
    unfolding fg by simp
  have ex: "filter (\<lambda>g. region g \<in> set (xt (p_text p))) (groups s) = [] \<or>
            (\<exists>g grp. (case p_groupId p of Some g \<Rightarrow> Some g | None \<Rightarrow> u_groupId u) = Some g \<and>
                     findGroup s g = Some grp)"
    using assms(2) unfolding fg target_of_def .
  have run: "\<exists>s' es primary copies.
            message_send xt clk flt s u p = (s', es, Acked (m_id primary)) \<and>
            messages s' = messages s @ primary # copies \<and>
            forwardedFrom primary = None \<and>
            groupId primary = target_of u p \<and>
            length copies = length (forwardedGroups xt s p) \<and>
            (\<forall>c \<in> set copies. forwardedFrom c = Some (m_id primary)) \<and>
            map groupId copies = map (\<lambda>g. Some (g_id g)) (forwardedGroups xt s p) \<and>
            map dest (message_new es) =
              ToRoom (GroupRoom (target_of u p)) #
              map (\<lambda>g. ToRoom (GroupRoom (Some (g_id g)))) (forwardedGroups xt s p)"
    unfolding fg target_of_def message_new_def
    by (rule message_send_run[where xt=xt and p=p and s=s and u=u, OF assms(1) ex])
  show ?thesis by (rule conjI[OF fg conjI[OF none run]])
qed

text \<open>Claim C1 in the example state: alice, of group 10, mentions \<open>north\<close>, the region of
  groups 20 and 30 (three records, three broadcasts); and alice sends a text with no
  mention (one record, one broadcast).\<close>

theorem send_fanout_witness:
  "targetGroups ex_mention = None \<and> target_of ex_alice ex_mention = Some 10 \<and>
   findGroup ex_state 10 = Some ex_general \<and>
   forwardedGroups ex_tags ex_state ex_mention = [ex_north_a, ex_north_b] \<and>
   (\<exists>s' es primary copies.
      message_send ex_tags ex_clock ex_reliable ex_state ex_alice ex_mention
        = (s', es, Acked (m_id primary)) \<and>
      messages s' = primary # copies \<and> length copies = 2 \<and>
      map dest (message_new es) =
        [ToRoom (GroupRoom (Some 10)), ToRoom (GroupRoom (Some 20)), ToRoom (GroupRoom (Some 30))]) \<and>
   targetGroups ex_plain = Some [] \<and> forwardedGroups ex_tags ex_state ex_plain = [] \<and>
   (\<exists>s' es primary.
      message_send ex_tags ex_clock ex_reliable ex_state ex_alice ex_plain
        = (s', es, Acked (m_id primary)) \<and>
      messages s' = [primary] \<and>
      map dest (message_new es) = [ToRoom (GroupRoom (Some 10))])"
proof -
  have t1: "targetGroups ex_mention = None \<or> targetGroups ex_mention = Some []"
    and t2: "targetGroups ex_plain = None \<or> targetGroups ex_plain = Some []"
    by (simp_all add: ex_mention_def ex_plain_def)
  have tg: "target_of ex_alice ex_mention = Some 10" "target_of ex_alice ex_plain = Some 10"
    by (simp_all add: target_of_def ex_alice_def ex_mention_def ex_plain_def)
  have g: "findGroup ex_state 10 = Some ex_general"
    by (simp add: findGroup_def ex_state_def ex_general_def)
  have f1: "forwardedGroups ex_tags ex_state ex_mention = [ex_north_a, ex_north_b]"
    and f2: "forwardedGroups ex_tags ex_state ex_plain = []"
    by (simp_all add: forwardedGroups_def ex_tags_def ex_state_def ex_mention_def ex_plain_def
          ex_general_def ex_north_a_def ex_north_b_def)
  have e1: "forwardedGroups ex_tags ex_state ex_mention = [] \<or>
            (\<exists>g grp. target_of ex_alice ex_mention = Some g \<and> findGroup ex_state g = Some grp)"
    using tg g by simp
  have e2: "forwardedGroups ex_tags ex_state ex_plain = [] \<or>
            (\<exists>g grp. target_of ex_alice ex_plain = Some g \<and> findGroup ex_state g = Some grp)"
    using f2 by simp
  have m: "messages ex_state = []" "g_id ex_north_a = 20" "g_id ex_north_b = 30"
    by (simp_all add: ex_state_def ex_north_a_def ex_north_b_def)
  from send_fanout[where xt=ex_tags and p=ex_mention and s=ex_state and u=ex_alice
                     and clk=ex_clock and flt=ex_reliable, OF t1 e1]
  obtain s1 es1 pr1 cs1 where
    r1: "message_send ex_tags ex_clock ex_reliable ex_state ex_alice ex_mention
           = (s1, es1, Acked (m_id pr1))"
        "messages s1 = messages ex_state @ pr1 # cs1"
        "length cs1 = length (forwardedGroups ex_tags ex_state ex_mention)"
        "map dest (message_new es1) =
           ToRoom (GroupRoom (target_of ex_alice ex_mention)) #
           map (\<lambda>g. ToRoom (GroupRoom (Some (g_id g))))
             (forwardedGroups ex_tags ex_state ex_mention)"
    by (elim exE conjE) (rule that)
  from send_fanout[where xt=ex_tags and p=ex_plain and s=ex_state and u=ex_alice
                     and clk=ex_clock and flt=ex_reliable, OF t2 e2]
  obtain s2 es2 pr2 cs2 where
    r2: "message_send ex_tags ex_clock ex_reliable ex_state ex_alice ex_plain
           = (s2, es2, Acked (m_id pr2))"
        "messages s2 = messages ex_state @ pr2 # cs2"
        "length cs2 = length (forwardedGroups ex_tags ex_state ex_plain)"
        "map dest (message_new es2) =
           ToRoom (GroupRoom (target_of ex_alice ex_plain)) #
           map (\<lambda>g. ToRoom (GroupRoom (Some (g_id g))))
             (forwardedGroups ex_tags ex_state ex_plain)"
    by (elim exE conjE) (rule that)
  have A: "\<exists>s' es primary copies.
      message_send ex_tags ex_clock ex_reliable ex_state ex_alice ex_mention
        = (s', es, Acked (m_id primary)) \<and>
      messages s' = primary # copies \<and> length copies = 2 \<and>
      map dest (message_new es) =
        [ToRoom (GroupRoom (Some 10)), ToRoom (GroupRoom (Some 20)), ToRoom (GroupRoom (Some 30))]"
    apply (rule exI[of _ s1])
    apply (rule exI[of _ es1])
    apply (rule exI[of _ pr1])
    apply (rule exI[of _ cs1])
    using r1 f1 tg m by simp
  have B: "\<exists>s' es primary.
      message_send ex_tags ex_clock ex_reliable ex_state ex_alice ex_plain
        = (s', es, Acked (m_id primary)) \<and>
      messages s' = [primary] \<and>
      map dest (message_new es) = [ToRoom (GroupRoom (Some 10))]"
    apply (rule exI[of _ s2])
    apply (rule exI[of _ es2])
    apply (rule exI[of _ pr2])
    using r2 f2 tg m by simp
  show ?thesis
    using t2 tg g f1 f2 A B by (simp add: ex_mention_def ex_plain_def)
qed

text \<open>
  Claim C1 as stated fails: in the example state the tag \<open>north\<close> matches one distinct
  group region, and the send persists three records and emits three broadcasts, not two.
\<close>

theorem send_fanout_regions_counterexample:
  "targetGroups ex_mention = None \<and>
   matched_regions ex_tags ex_state ex_mention = [''north''] \<and>
   length (messages (fst (message_send ex_tags ex_clock ex_reliable ex_state ex_alice ex_mention)))
     = 3 \<and>
   length (message_new (fst (snd (message_send ex_tags ex_clock ex_reliable ex_state ex_alice
                                    ex_mention))))
     = 3 \<and>
   length (messages (fst (message_send ex_tags ex_clock ex_reliable ex_state ex_alice ex_mention)))
     \<noteq> length (messages ex_state) + (length (matched_regions ex_tags ex_state ex_mention) + 1)"
  by (simp add: message_send_def forwardedGroups_def matched_regions_def message_new_def
        Message_create_def new_message_def populate_def findGroup_def allMembers_def
        sendNotification_def redis_get_def redis_setex_def push_notification_def cap100_def
        textOrFile_def Let_def
        ex_mention_def ex_tags_def ex_state_def ex_alice_def ex_bob_def ex_carol_def
        ex_general_def ex_north_a_def ex_north_b_def ex_clock_def ex_reliable_def no_faults_def)

text \<open>
  What the theorem leaves out: a send with a mention whose target group does not exist.
  The primary record is persisted and broadcast, the first copy is persisted, and reading
  the name of the missing group throws before that copy is broadcast; the handler ends
  there without an acknowledgement.
\<close>

lemma send_to_missing_group_throws:
  "findGroup ex_state 99 = None \<and>
   snd (snd (message_send ex_tags ex_clock ex_reliable ex_state ex_alice
               (ex_mention\<lparr>p_groupId := Some 99\<rparr>))) = Thrown \<and>
   map groupId (messages (fst (message_send ex_tags ex_clock ex_reliable ex_state ex_alice
               (ex_mention\<lparr>p_groupId := Some 99\<rparr>)))) = [Some 99, Some 20] \<and>
   map dest (fst (snd (message_send ex_tags ex_clock ex_reliable ex_state ex_alice
               (ex_mention\<lparr>p_groupId := Some 99\<rparr>)))) = [ToRoom (GroupRoom (Some 99))]"
  by (simp add: message_send_def forwardedGroups_def
        Message_create_def new_message_def populate_def findGroup_def Let_def
        ex_mention_def ex_tags_def ex_state_def ex_alice_def
        ex_general_def ex_north_a_def ex_north_b_def ex_clock_def)

subsection \<open>C2: who may edit, and until when\<close>

text \<open>
  Claim C2. For an edit request on an existing message: the edit succeeds exactly when the
  acting user is the sender and the clock read by the check is at most 15 minutes past the
  creation timestamp; another user gets the 403 reply (authorization failure), whatever
  the age of the message; the sender past the window gets the 400 reply (validation
  failure); and whenever the reply is a failure, the state after the request is the state
  before it and nothing is emitted. A success is an edit that took place: the reply is the
  message with the new text, the tags extracted from it and the edited stamp, that message
  is what the store holds under the id afterwards, the message list is the old one with
  the target (and, for an original, its forwarded copies) rewritten, nothing else of the
  state changes, and the edit is announced to the group room of the message.
\<close>

theorem edit_permission:
  assumes "findMessage s i = Some m"
  shows "((\<exists>m'. fst (editMessage xt clk s a i t) = Inr m') \<longleftrightarrow>
            (a = senderId m \<and> clk 202 - createdAt m \<le> 15 * 60 * 1000)) \<and>
         (a \<noteq> senderId m \<longrightarrow>
            fst (editMessage xt clk s a i t)
              = Inl (Forbidden ''Not authorized to edit this message'')) \<and>
         (a = senderId m \<and> clk 202 - createdAt m > 15 * 60 * 1000 \<longrightarrow>
            fst (editMessage xt clk s a i t) = Inl (BadRequest ''Message too old to edit'')) \<and>
         ((\<exists>e. fst (editMessage xt clk s a i t) = Inl e) \<longrightarrow>
            snd (editMessage xt clk s a i t) = (s, [])) \<and>
         (a = senderId m \<and> clk 202 - createdAt m \<le> 15 * 60 * 1000 \<longrightarrow>
            fst (editMessage xt clk s a i t) = Inr (edit_of xt t (clk 208) m) \<and>
            findMessage (fst (snd (editMessage xt clk s a i t))) i
              = Some (edit_of xt t (clk 208) m) \<and>
            fst (snd (editMessage xt clk s a i t)) =
              s\<lparr>messages :=
                   map (\<lambda>x. if m_id x = i then edit_of xt t (clk 208) m
                            else if forwardedFrom m = None \<and> forwardedFrom x = Some i
                                 then edit_of xt t (clk 219) x
                                 else x) (messages s)\<rparr> \<and>
            snd (snd (editMessage xt clk s a i t)) =
              (if io s
               then [Emit (ToRoom (GroupRoom (groupId m))) ''message:edited''
                       (EditedMessage (populate (fst (snd (editMessage xt clk s a i t)))
                                                (edit_of xt t (clk 208) m)))]
               else []))"
proof -
  let ?f = "\<lambda>x. if m_id x = i then edit_of xt t (clk 208) m
                 else if forwardedFrom m = None \<and> forwardedFrom x = Some i
                      then edit_of xt t (clk 219) x
                      else x"
  have old: "((\<exists>m'. fst (editMessage xt clk s a i t) = Inr m') \<longleftrightarrow>
            (a = senderId m \<and> clk 202 - createdAt m \<le> 15 * 60 * 1000)) \<and>
         (a \<noteq> senderId m \<longrightarrow>
            fst (editMessage xt clk s a i t)
              = Inl (Forbidden ''Not authorized to edit this message'')) \<and>
         (a = senderId m \<and> clk 202 - createdAt m > 15 * 60 * 1000 \<longrightarrow>
            fst (editMessage xt clk s a i t) = Inl (BadRequest ''Message too old to edit'')) \<and>
         ((\<exists>e. fst (editMessage xt clk s a i t) = Inl e) \<longrightarrow>
            snd (editMessage xt clk s a i t) = (s, []))"
  proof (cases "a = senderId m")
    case False
    then show ?thesis using edit_refused_sender[OF assms, of a xt clk t] by auto
  next
    case True
    show ?thesis
    proof (cases "clk 202 - createdAt m > 15 * 60 * 1000")
      case True
      with \<open>a = senderId m\<close> show ?thesis
        using edit_refused_window[OF assms, of a clk xt t] by auto
    next
      case False
      with \<open>a = senderId m\<close> show ?thesis
        using edit_done(1)[OF assms, of a clk xt t] by auto
    qed
  qed
  have new: "a = senderId m \<and> clk 202 - createdAt m \<le> 15 * 60 * 1000 \<longrightarrow>
            fst (editMessage xt clk s a i t) = Inr (edit_of xt t (clk 208) m) \<and>
            findMessage (fst (snd (editMessage xt clk s a i t))) i
              = Some (edit_of xt t (clk 208) m) \<and>
            fst (snd (editMessage xt clk s a i t)) = s\<lparr>messages := map ?f (messages s)\<rparr> \<and>
            snd (snd (editMessage xt clk s a i t)) =
              (if io s
               then [Emit (ToRoom (GroupRoom (groupId m))) ''message:edited''
                       (EditedMessage (populate (fst (snd (editMessage xt clk s a i t)))
                                                (edit_of xt t (clk 208) m)))]
               else [])"
  proof
    assume h: "a = senderId m \<and> clk 202 - createdAt m \<le> 15 * 60 * 1000"
    then have sn: "senderId m = a" and w: "clk 202 - createdAt m \<le> 15 * 60 * 1000"
      by simp_all
    have r: "fst (editMessage xt clk s a i t) = Inr (edit_of xt t (clk 208) m)"
      by (rule edit_done(1)[where clk=clk, OF assms sn w])
    have msgs: "messages (fst (snd (editMessage xt clk s a i t))) = map ?f (messages s)"
      by (rule edit_done(2)[where clk=clk, OF assms sn w])
    have em: "snd (snd (editMessage xt clk s a i t)) =
              (if io s
               then [Emit (ToRoom (GroupRoom (groupId m))) ''message:edited''
                       (EditedMessage (populate (fst (snd (editMessage xt clk s a i t)))
                                                (edit_of xt t (clk 208) m)))]
               else [])"
      by (rule edit_done(3)[where clk=clk and xt=xt and t=t, OF assms sn w])
    have st: "fst (snd (editMessage xt clk s a i t)) = s\<lparr>messages := map ?f (messages s)\<rparr>"
      using edit_done(4)[where clk=clk and xt=xt and t=t, OF assms sn w] msgs by simp
    have idm: "m_id m = i" using findMessage_mem[OF assms] by simp
    have ids: "m_id (?f x) = m_id x" for x
      using idm by (simp add: edit_of_def)
    have "findMessage (fst (snd (editMessage xt clk s a i t))) i
            = map_option ?f (findMessage s i)"
      unfolding findMessage_def msgs by (rule find_map_id) (rule ids)
    then have found: "findMessage (fst (snd (editMessage xt clk s a i t))) i
                        = Some (edit_of xt t (clk 208) m)"
      using assms idm by simp
    show "fst (editMessage xt clk s a i t) = Inr (edit_of xt t (clk 208) m) \<and>
            findMessage (fst (snd (editMessage xt clk s a i t))) i
              = Some (edit_of xt t (clk 208) m) \<and>
            fst (snd (editMessage xt clk s a i t)) = s\<lparr>messages := map ?f (messages s)\<rparr> \<and>
            snd (snd (editMessage xt clk s a i t)) =
              (if io s
               then [Emit (ToRoom (GroupRoom (groupId m))) ''message:edited''
                       (EditedMessage (populate (fst (snd (editMessage xt clk s a i t)))
                                                (edit_of xt t (clk 208) m)))]
               else [])"
      by (rule conjI[OF r conjI[OF found conjI[OF st em]]])
  qed
  from old have o1: "(\<exists>m'. fst (editMessage xt clk s a i t) = Inr m') \<longleftrightarrow>
            (a = senderId m \<and> clk 202 - createdAt m \<le> 15 * 60 * 1000)"
    and o2: "a \<noteq> senderId m \<longrightarrow>
            fst (editMessage xt clk s a i t)
              = Inl (Forbidden ''Not authorized to edit this message'')"
    and o3: "a = senderId m \<and> clk 202 - createdAt m > 15 * 60 * 1000 \<longrightarrow>
            fst (editMessage xt clk s a i t) = Inl (BadRequest ''Message too old to edit'')"
    and o4: "(\<exists>e. fst (editMessage xt clk s a i t) = Inl e) \<longrightarrow>
            snd (editMessage xt clk s a i t) = (s, [])"
    by blast+
  show ?thesis
    by (rule conjI[OF o1 conjI[OF o2 conjI[OF o3 conjI[OF o4 new]]]])
qed

text \<open>Claim C2 on the example thread: the sender in time (the original and both copies
  are rewritten), another user, and the sender sixteen minutes late.\<close>

theorem edit_permission_witness:
  "findMessage ex_thread 0 = Some ex_original \<and>
   (\<exists>m'. fst (editMessage ex_tags ex_clock ex_thread 1 0 (Some ''hello'')) = Inr m') \<and>
   fst (snd (editMessage ex_tags ex_clock ex_thread 1 0 (Some ''hello'')))
     = ex_thread\<lparr>messages := [edit_of ex_tags (Some ''hello'') 1208 ex_original,
                                edit_of ex_tags (Some ''hello'') 1219 ex_copy_a,
                                edit_of ex_tags (Some ''hello'') 1219 ex_copy_b]\<rparr> \<and>
   editMessage ex_tags ex_clock ex_thread 2 0 (Some ''hello'')
     = (Inl (Forbidden ''Not authorized to edit this message''), ex_thread, []) \<and>
   editMessage ex_tags ex_later ex_thread 1 0 (Some ''hello'')
     = (Inl (BadRequest ''Message too old to edit''), ex_thread, [])"
proof -
  have h: "findMessage ex_thread 0 = Some ex_original"
    by (simp add: findMessage_def ex_thread_def ex_original_def new_message_def)
  have o: "senderId ex_original = 1" "createdAt ex_original = 1000"
    by (simp_all add: ex_original_def new_message_def)
  have l: "messages ex_thread = [ex_original, ex_copy_a, ex_copy_b]"
    "m_id ex_original = 0" "m_id ex_copy_a = 1" "m_id ex_copy_b = 2"
    "forwardedFrom ex_original = None"
    "forwardedFrom ex_copy_a = Some 0" "forwardedFrom ex_copy_b = Some 0"
    by (simp_all add: ex_thread_def ex_original_def ex_copy_a_def ex_copy_b_def new_message_def)
  show ?thesis
    using h o l edit_permission[OF h, of ex_tags ex_clock 1 "Some ''hello''"]
      edit_permission[OF h, of ex_tags ex_clock 2 "Some ''hello''"]
      edit_permission[OF h, of ex_tags ex_later 1 "Some ''hello''"]
    by (simp add: ex_clock_def ex_later_def prod_eq_iff)
qed

subsection \<open>C3: who may delete, and the cascade\<close>

text \<open>
  Claim C3, as the code has it. For a delete request on an existing message: the delete
  succeeds exactly when the acting user is the sender or has the role manager or admin,
  with no time limit, and is refused with the 403 reply and no change otherwise. On
  success the target is tombstoned with the actor and the clock read at line 261; when the
  target is an original, every record whose \<open>forwardedFrom\<close> is the target's id is
  tombstoned too, with the same flag and the same actor, and with the clock read when the
  cascade is written (line 274), which is the target's stamp only if the clock has not
  moved in between. A forwarded copy that is deleted takes no other record with it.
\<close>

theorem delete_permission:
  assumes "findMessage s i = Some m"
  shows "(fst (deleteMessage clk s a r i) = Inr () \<longleftrightarrow>
            (a = senderId m \<or> r = Manager \<or> r = Admin)) \<and>
         (\<not> (a = senderId m \<or> r = Manager \<or> r = Admin) \<longrightarrow>
            deleteMessage clk s a r i
              = (Inl (Forbidden ''Not authorized to delete this message''), s, [])) \<and>
         (a = senderId m \<or> r = Manager \<or> r = Admin \<longrightarrow>
            messages (fst (snd (deleteMessage clk s a r i))) =
              map (\<lambda>x. if m_id x = i then tombstone a (clk 261) m
                       else if forwardedFrom m = None \<and> forwardedFrom x = Some i
                            then tombstone a (clk 274) x
                            else x) (messages s) \<and>
            findMessage (fst (snd (deleteMessage clk s a r i))) i
              = Some (tombstone a (clk 261) m) \<and>
            (forwardedFrom m = None \<longrightarrow>
               (\<forall>x \<in> set (messages (fst (snd (deleteMessage clk s a r i)))).
                  forwardedFrom x = Some i \<longrightarrow>
                  deleted x = \<lparr>isDeleted = True, deletedBy = Some a,
                               deletedAt = Some (clk 274)\<rparr>)))"
proof (cases "a = senderId m \<or> r = Manager \<or> r = Admin")
  case False
  then show ?thesis using delete_refused[OF assms, of a r clk] by auto
next
  case True
  then have ok: "senderId m = a \<or> r = Manager \<or> r = Admin" by auto
  let ?f = "\<lambda>x. if m_id x = i then tombstone a (clk 261) m
                 else if forwardedFrom m = None \<and> forwardedFrom x = Some i
                      then tombstone a (clk 274) x
                      else x"
  have msgs: "messages (fst (snd (deleteMessage clk s a r i))) = map ?f (messages s)"
    by (rule delete_done(2)[OF assms ok])
  have idm: "m_id m = i" using findMessage_mem[OF assms] by simp
  have ids: "m_id (?f x) = m_id x" for x
    using idm by (simp add: tombstone_def)
  have "findMessage (fst (snd (deleteMessage clk s a r i))) i = map_option ?f (findMessage s i)"
    unfolding findMessage_def msgs by (rule find_map_id) (rule ids)
  then have found: "findMessage (fst (snd (deleteMessage clk s a r i))) i
                      = Some (tombstone a (clk 261) m)"
    using assms idm by simp
  have casc: "\<forall>x \<in> set (messages (fst (snd (deleteMessage clk s a r i)))).
                forwardedFrom x = Some i \<longrightarrow>
                deleted x = \<lparr>isDeleted = True, deletedBy = Some a, deletedAt = Some (clk 274)\<rparr>"
    if "forwardedFrom m = None"
    unfolding msgs using that by (auto simp: tombstone_def)
  have A: "fst (deleteMessage clk s a r i) = Inr () \<longleftrightarrow>
             (a = senderId m \<or> r = Manager \<or> r = Admin)"
    using True delete_done(1)[OF assms ok, of clk] by simp
  have B: "\<not> (a = senderId m \<or> r = Manager \<or> r = Admin) \<longrightarrow>
             deleteMessage clk s a r i
               = (Inl (Forbidden ''Not authorized to delete this message''), s, [])"
    using True by simp
  have C: "a = senderId m \<or> r = Manager \<or> r = Admin \<longrightarrow>
            messages (fst (snd (deleteMessage clk s a r i))) = map ?f (messages s) \<and>
            findMessage (fst (snd (deleteMessage clk s a r i))) i
              = Some (tombstone a (clk 261) m) \<and>
            (forwardedFrom m = None \<longrightarrow>
               (\<forall>x \<in> set (messages (fst (snd (deleteMessage clk s a r i)))).
                  forwardedFrom x = Some i \<longrightarrow>
                  deleted x = \<lparr>isDeleted = True, deletedBy = Some a,
                               deletedAt = Some (clk 274)\<rparr>))"
    using casc by (intro impI conjI msgs found) blast
  show ?thesis by (rule conjI[OF A conjI[OF B C]])
qed

text \<open>Claim C3 on the example thread: the sender deletes the original, a manager deletes
  it, and a plain member who did not send it is refused.\<close>

theorem delete_permission_witness:
  "findMessage ex_thread 0 = Some ex_original \<and> forwardedFrom ex_original = None \<and>
   fst (deleteMessage ex_clock ex_thread 1 Member 0) = Inr () \<and>
   messages (fst (snd (deleteMessage ex_clock ex_thread 1 Member 0)))
     = [tombstone 1 1261 ex_original, tombstone 1 1274 ex_copy_a, tombstone 1 1274 ex_copy_b] \<and>
   fst (deleteMessage ex_clock ex_thread 2 Manager 0) = Inr () \<and>
   deleteMessage ex_clock ex_thread 3 Member 0
     = (Inl (Forbidden ''Not authorized to delete this message''), ex_thread, [])"
proof -
  have h: "findMessage ex_thread 0 = Some ex_original"
    by (simp add: findMessage_def ex_thread_def ex_original_def new_message_def)
  have o: "senderId ex_original = 1" "forwardedFrom ex_original = None"
    by (simp_all add: ex_original_def new_message_def)
  have l: "messages ex_thread = [ex_original, ex_copy_a, ex_copy_b]"
    "m_id ex_original = 0" "m_id ex_copy_a = 1" "m_id ex_copy_b = 2"
    "forwardedFrom ex_copy_a = Some 0" "forwardedFrom ex_copy_b = Some 0"
    by (simp_all add: ex_thread_def ex_original_def ex_copy_a_def ex_copy_b_def new_message_def)
  show ?thesis
    using h o l delete_permission[OF h, of ex_clock 1 Member]
      delete_permission[OF h, of ex_clock 2 Manager]
      delete_permission[OF h, of ex_clock 3 Member]
    by (simp add: ex_clock_def)
qed

text \<open>
  Claim C3 as stated fails in its last part: after the sender deletes the original of the
  example thread, the \<open>deleted\<close> fields of the first copy are not those of the original
  (the two timestamps are separate readings of the clock).
\<close>

theorem delete_cascade_stamp_counterexample:
  "fst (deleteMessage ex_clock ex_thread 1 Member 0) = Inr () \<and>
   map_option forwardedFrom (findMessage (fst (snd (deleteMessage ex_clock ex_thread 1 Member 0))) 1)
     = Some (Some 0) \<and>
   map_option deleted (findMessage (fst (snd (deleteMessage ex_clock ex_thread 1 Member 0))) 1)
     \<noteq> map_option deleted (findMessage (fst (snd (deleteMessage ex_clock ex_thread 1 Member 0))) 0)"
  by (simp add: deleteMessage_def findMessage_def save_def updateForwarded_def Let_def
        ex_thread_def ex_state_def ex_original_def ex_copy_a_def ex_copy_b_def
        new_message_def ex_clock_def)

subsection \<open>C4: a cache failure while recording a notification\<close>




subsection \<open>C5: announcing presence\<close>




subsection \<open>C6: a send with neither text nor file\<close>

text \<open>
  The HTTP handler refuses a body with neither text nor file before it touches anything.
\<close>

lemma sendMessage_blank_refused:
  assumes "\<not> truthy t" and "\<not> truthy f"
  shows "sendMessage xt clk s a t g f
           = (Inl (BadRequest ''Message text or file is required''), s, [])"
  using assms by (simp add: sendMessage_def)

text \<open>
  Claim C6 does not hold of the \<^verbatim>\<open>message:send\<close> socket handler, which has no such check.
  In the example state alice sends a payload whose text is empty and which has no file: the
  handler acknowledges success, a record with empty text and no file is persisted, it is
  broadcast to the room of group 10, and bob, the other member, gets the notification
  \<open>Sent a file\<close> recorded and emitted.
\<close>

theorem blank_send_persists:
  "\<not> truthy (p_text ex_blank) \<and> p_file ex_blank = None \<and>
   snd (snd (message_send ex_tags ex_clock ex_reliable ex_state ex_alice ex_blank)) = Acked 0 \<and>
   map m_text (messages (fst (message_send ex_tags ex_clock ex_reliable ex_state ex_alice ex_blank)))
     = [Some []] \<and>
   map m_file (messages (fst (message_send ex_tags ex_clock ex_reliable ex_state ex_alice ex_blank)))
     = [None] \<and>
   map dest (fst (snd (message_send ex_tags ex_clock ex_reliable ex_state ex_alice ex_blank)))
     = [ToRoom (GroupRoom (Some 10)), ToRoom (UserRoom 2)] \<and>
   map event (fst (snd (message_send ex_tags ex_clock ex_reliable ex_state ex_alice ex_blank)))
     = [''message:new'', ''notification:new''] \<and>
   map_option (\<lambda>v. map nmessage (notifications v))
     (users (fst (message_send ex_tags ex_clock ex_reliable ex_state ex_alice ex_blank)) 2)
     = Some [''Sent a file'']"
  by (simp add: message_send_def forwardedGroups_def truthy_def
        Message_create_def new_message_def populate_def findGroup_def allMembers_def
        sendNotification_def redis_get_def redis_setex_def push_notification_def cap100_def
        textOrFile_def Let_def
        ex_blank_def ex_tags_def ex_state_def ex_alice_def ex_bob_def ex_carol_def
        ex_general_def ex_north_a_def ex_north_b_def ex_clock_def ex_reliable_def no_faults_def)

subsection \<open>C7: record, then fetch\<close>

text \<open>
  Claim C7, as the code has it. The cache client of the repository stores nothing and
  answers every read with null, so no fetch is served from the cache: the cache read of a
  fetch finds nothing, right after a record too. With the calls of both operations
  answering, a record for a user who has a document appends the notification to the user's
  durable list and reports success, and the fetch that follows returns that durable list,
  the old entries and then the notification just recorded, which is its last element; a
  record for an id with no user document reports success and stores nothing, and the fetch
  that follows returns the empty list. In general a fetch returns the user's durable list
  when its three calls answer and the user has a document, and the empty list in every
  other case, so also when the user has no durable notifications and whenever a call
  rejects: it has no error result. It hands the list to the cache client, which keeps
  nothing: a fetch leaves the state as it was, and a second fetch returns the same content.
\<close>

theorem record_then_fetch:
  "redis_get (cache (snd (sendNotification f s i n))) i = None \<and>
   (answering f \<longrightarrow>
      sendNotification f s i n = (True, s\<lparr>users := push_notification (users s) i n\<rparr>)) \<and>
   (users s i = Some u \<and> answering f \<and> answering f' \<longrightarrow>
      users (snd (sendNotification f s i n)) i
        = Some (u\<lparr>notifications := notifications u @ [n]\<rparr>) \<and>
      getNotifications f' (snd (sendNotification f s i n)) i
        = (notifications u @ [n], snd (sendNotification f s i n)) \<and>
      last (fst (getNotifications f' (snd (sendNotification f s i n)) i)) = n) \<and>
   (users s i = None \<and> answering f \<longrightarrow>
      sendNotification f s i n = (True, s) \<and>
      fst (getNotifications f' (snd (sendNotification f s i n)) i) = []) \<and>
   fst (getNotifications f s i)
     = (if get_down f \<or> db_down f then []
        else case users s i of
               None \<Rightarrow> []
             | Some v \<Rightarrow> if setex_down f then [] else notifications v) \<and>
   snd (getNotifications f s i) = s \<and>
   (users s i = None \<or> (\<exists>v. users s i = Some v \<and> notifications v = []) \<longrightarrow>
      fst (getNotifications f s i) = [])"
proof -
  have fetch: "fst (getNotifications g t k)
     = (if get_down g \<or> db_down g then []
        else case users t k of
               None \<Rightarrow> []
             | Some v \<Rightarrow> if setex_down g then [] else notifications v)" for g t k
    by (simp add: getNotifications_def redis_get_def split: option.split)
  have same: "snd (getNotifications g t k) = t" for g t k
    by (rule cache_untouched(2))
  have rec: "sendNotification f s i n = (True, s\<lparr>users := push_notification (users s) i n\<rparr>)"
    if "answering f"
    using that
    by (simp add: sendNotification_def redis_get_def redis_setex_def answering_def Let_def)
  have A: "redis_get (cache (snd (sendNotification f s i n))) i = None"
    by (simp add: redis_get_def)
  have B: "answering f \<longrightarrow>
      sendNotification f s i n = (True, s\<lparr>users := push_notification (users s) i n\<rparr>)"
    using rec by simp
  have C: "users s i = Some u \<and> answering f \<and> answering f' \<longrightarrow>
      users (snd (sendNotification f s i n)) i
        = Some (u\<lparr>notifications := notifications u @ [n]\<rparr>) \<and>
      getNotifications f' (snd (sendNotification f s i n)) i
        = (notifications u @ [n], snd (sendNotification f s i n)) \<and>
      last (fst (getNotifications f' (snd (sendNotification f s i n)) i)) = n"
  proof
    assume h: "users s i = Some u \<and> answering f \<and> answering f'"
    then have r: "snd (sendNotification f s i n) = s\<lparr>users := push_notification (users s) i n\<rparr>"
      using rec by simp
    have u': "users (snd (sendNotification f s i n)) i
                = Some (u\<lparr>notifications := notifications u @ [n]\<rparr>)"
      using h by (simp add: r push_notification_def)
    have l: "fst (getNotifications f' (snd (sendNotification f s i n)) i) = notifications u @ [n]"
      using h u' by (simp add: fetch answering_def)
    have "getNotifications f' (snd (sendNotification f s i n)) i
            = (notifications u @ [n], snd (sendNotification f s i n))"
      using l same[of f' "snd (sendNotification f s i n)" i] by (simp add: prod_eq_iff)
    with u' l show "users (snd (sendNotification f s i n)) i
        = Some (u\<lparr>notifications := notifications u @ [n]\<rparr>) \<and>
      getNotifications f' (snd (sendNotification f s i n)) i
        = (notifications u @ [n], snd (sendNotification f s i n)) \<and>
      last (fst (getNotifications f' (snd (sendNotification f s i n)) i)) = n"
      by simp
  qed
  have D: "users s i = None \<and> answering f \<longrightarrow>
      sendNotification f s i n = (True, s) \<and>
      fst (getNotifications f' (snd (sendNotification f s i n)) i) = []"
  proof
    assume h: "users s i = None \<and> answering f"
    then have r: "sendNotification f s i n = (True, s)"
      using rec by (simp add: push_notification_def)
    with h show "sendNotification f s i n = (True, s) \<and>
      fst (getNotifications f' (snd (sendNotification f s i n)) i) = []"
      by (simp add: fetch)
  qed
  have E: "fst (getNotifications f s i)
     = (if get_down f \<or> db_down f then []
        else case users s i of
               None \<Rightarrow> []
             | Some v \<Rightarrow> if setex_down f then [] else notifications v)"
    by (rule fetch)
  have F: "snd (getNotifications f s i) = s"
    by (rule same)
  have G: "users s i = None \<or> (\<exists>v. users s i = Some v \<and> notifications v = []) \<longrightarrow>
      fst (getNotifications f s i) = []"
    unfolding E by auto
  show ?thesis
    by (rule conjI[OF A conjI[OF B conjI[OF C conjI[OF D conjI[OF E conjI[OF F G]]]]]])
qed

text \<open>Claim C7 in the example state: a record for alice, who has a document, then a fetch;
  a record for id 9, which has none, then a fetch; and a fetch for alice whose cache write
  rejects.\<close>

theorem record_then_fetch_witness:
  "users ex_state 1 = Some ex_alice \<and> users ex_state 9 = None \<and>
   answering no_faults \<and> notifications ex_alice = [] \<and>
   getNotifications no_faults (snd (sendNotification no_faults ex_state 1 ex_note)) 1
     = ([ex_note], snd (sendNotification no_faults ex_state 1 ex_note)) \<and>
   sendNotification no_faults ex_state 9 ex_note = (True, ex_state) \<and>
   fst (getNotifications no_faults (snd (sendNotification no_faults ex_state 9 ex_note)) 9) = [] \<and>
   fst (getNotifications ex_cache_down ex_state 1) = []"
proof -
  have u: "users ex_state 1 = Some ex_alice" "users ex_state 9 = None"
    by (simp_all add: ex_state_def)
  have a: "answering no_faults" "notifications ex_alice = []" "setex_down ex_cache_down"
    by (simp_all add: answering_def no_faults_def ex_alice_def ex_cache_down_def)
  note r1 = record_then_fetch[of no_faults ex_state 1 ex_note ex_alice no_faults]
  note r9 = record_then_fetch[of no_faults ex_state 9 ex_note ex_alice no_faults]
  note rc = record_then_fetch[of ex_cache_down ex_state 1 ex_note ex_alice no_faults]
  have p1: "users ex_state 1 = Some ex_alice \<and> answering no_faults \<and> answering no_faults"
    using u(1) a(1) by simp
  have p9: "users ex_state 9 = None \<and> answering no_faults"
    using u(2) a(1) by simp
  have "getNotifications no_faults (snd (sendNotification no_faults ex_state 1 ex_note)) 1
          = (notifications ex_alice @ [ex_note],
             snd (sendNotification no_faults ex_state 1 ex_note))"
    by (rule r1[THEN conjunct2, THEN conjunct2, THEN conjunct1, rule_format, OF p1,
                THEN conjunct2, THEN conjunct1])
  then have g1: "getNotifications no_faults
                   (snd (sendNotification no_faults ex_state 1 ex_note)) 1
              = ([ex_note], snd (sendNotification no_faults ex_state 1 ex_note))"
    by (simp only: a(2) append_Nil)
  have g9: "sendNotification no_faults ex_state 9 ex_note = (True, ex_state) \<and>
            fst (getNotifications no_faults
                   (snd (sendNotification no_faults ex_state 9 ex_note)) 9) = []"
    by (rule r9[THEN conjunct2, THEN conjunct2, THEN conjunct2, THEN conjunct1, rule_format,
                OF p9])
  have "fst (getNotifications ex_cache_down ex_state 1)
          = (if get_down ex_cache_down \<or> db_down ex_cache_down then []
             else case users ex_state 1 of
                    None \<Rightarrow> []
                  | Some v \<Rightarrow> if setex_down ex_cache_down then [] else notifications v)"
    by (rule rc[THEN conjunct2, THEN conjunct2, THEN conjunct2, THEN conjunct2, THEN conjunct1])
  then have gc: "fst (getNotifications ex_cache_down ex_state 1) = []"
    using u(1) a(3) by simp
  show ?thesis
    by (intro conjI u a(1,2) g1 g9[THEN conjunct1] g9[THEN conjunct2] gc)
qed

text \<open>
  Claim C7 as stated fails. Right after a successful record for alice the cache read of
  the fetch finds nothing, so the list is not served from the cache; and a record for id 9,
  which has no user document, reports success while the fetch that follows returns the
  empty list, which has no last element to be the notification.
\<close>

theorem fetch_not_from_cache_counterexample:
  "fst (sendNotification no_faults ex_state 1 ex_note) \<and>
   redis_get (cache (snd (sendNotification no_faults ex_state 1 ex_note))) 1 = None \<and>
   fst (sendNotification no_faults ex_state 9 ex_note) \<and>
   fst (getNotifications no_faults (snd (sendNotification no_faults ex_state 9 ex_note)) 9) = []"
  by (simp add: sendNotification_def getNotifications_def redis_get_def redis_setex_def
        push_notification_def cap100_def Let_def no_faults_def ex_state_def)

subsection \<open>C8: what an edit touches\<close>

text \<open>
  Claim C8. After a successful edit (by the sender, within the window): when the edited
  message is an original, every record whose \<open>forwardedFrom\<close> is its id has the new text,
  the tags extracted from it, and the edited stamp (flag set, time read when the cascade is
  written); when it is a forwarded copy, every record with another id is what it was, the
  original and the sibling copies among them. In both cases the records keep their number
  and order, and exactly one \<^verbatim>\<open>message:edited\<close> is emitted, to the group room of the
  edited message, and nothing else (given the socket server is attached to the app).
\<close>

theorem edit_cascade:
  assumes "findMessage s i = Some m"
      and "a = senderId m"
      and "clk 202 - createdAt m \<le> 15 * 60 * 1000"
  shows "fst (editMessage xt clk s a i t) = Inr (edit_of xt t (clk 208) m) \<and>
         messages (fst (snd (editMessage xt clk s a i t))) =
           map (\<lambda>x. if m_id x = i then edit_of xt t (clk 208) m
                    else if forwardedFrom m = None \<and> forwardedFrom x = Some i
                         then edit_of xt t (clk 219) x
                         else x) (messages s) \<and>
         (forwardedFrom m = None \<longrightarrow>
            (\<forall>x \<in> set (messages (fst (snd (editMessage xt clk s a i t)))).
               forwardedFrom x = Some i \<longrightarrow>
               m_text x = t \<and> tags x = xt t \<and>
               edited x = \<lparr>isEdited = True, editedAt = Some (clk 219)\<rparr>)) \<and>
         (forwardedFrom m \<noteq> None \<longrightarrow>
            messages (fst (snd (editMessage xt clk s a i t))) =
              map (\<lambda>x. if m_id x = i then edit_of xt t (clk 208) m else x) (messages s)) \<and>
         (io s \<longrightarrow>
            snd (snd (editMessage xt clk s a i t)) =
              [Emit (ToRoom (GroupRoom (groupId m))) ''message:edited''
                 (EditedMessage (populate (fst (snd (editMessage xt clk s a i t)))
                                          (edit_of xt t (clk 208) m)))])"
proof -
  have snd_ok: "senderId m = a" using assms(2) by simp
  let ?f = "\<lambda>x. if m_id x = i then edit_of xt t (clk 208) m
                 else if forwardedFrom m = None \<and> forwardedFrom x = Some i
                      then edit_of xt t (clk 219) x
                      else x"
  have A: "fst (editMessage xt clk s a i t) = Inr (edit_of xt t (clk 208) m)"
    by (rule edit_done(1)[where clk=clk, OF assms(1) snd_ok assms(3)])
  have msgs: "messages (fst (snd (editMessage xt clk s a i t))) = map ?f (messages s)"
    by (rule edit_done(2)[where clk=clk, OF assms(1) snd_ok assms(3)])
  have C: "forwardedFrom m = None \<longrightarrow>
            (\<forall>x \<in> set (messages (fst (snd (editMessage xt clk s a i t)))).
               forwardedFrom x = Some i \<longrightarrow>
               m_text x = t \<and> tags x = xt t \<and>
               edited x = \<lparr>isEdited = True, editedAt = Some (clk 219)\<rparr>)"
    unfolding msgs by (auto simp: edit_of_def)
  have D: "forwardedFrom m \<noteq> None \<longrightarrow>
            messages (fst (snd (editMessage xt clk s a i t))) =
              map (\<lambda>x. if m_id x = i then edit_of xt t (clk 208) m else x) (messages s)"
    unfolding msgs by auto
  have E: "io s \<longrightarrow>
            snd (snd (editMessage xt clk s a i t)) =
              [Emit (ToRoom (GroupRoom (groupId m))) ''message:edited''
                 (EditedMessage (populate (fst (snd (editMessage xt clk s a i t)))
                                          (edit_of xt t (clk 208) m)))]"
    using edit_done(3)[where clk=clk and xt=xt and t=t, OF assms(1) snd_ok assms(3)] by simp
  show ?thesis by (rule conjI[OF A conjI[OF msgs conjI[OF C conjI[OF D E]]]])
qed

text \<open>Claim C8 on the example thread: editing the original rewrites both copies, editing
  the first copy rewrites that copy alone, and each edit emits one event.\<close>

theorem edit_cascade_witness:
  "findMessage ex_thread 0 = Some ex_original \<and> findMessage ex_thread 1 = Some ex_copy_a \<and>
   1 = senderId ex_original \<and> 1 = senderId ex_copy_a \<and>
   ex_clock 202 - createdAt ex_original \<le> 15 * 60 * 1000 \<and>
   ex_clock 202 - createdAt ex_copy_a \<le> 15 * 60 * 1000 \<and>
   messages (fst (snd (editMessage ex_tags ex_clock ex_thread 1 0 (Some ''hello''))))
     = [edit_of ex_tags (Some ''hello'') 1208 ex_original,
        edit_of ex_tags (Some ''hello'') 1219 ex_copy_a,
        edit_of ex_tags (Some ''hello'') 1219 ex_copy_b] \<and>
   messages (fst (snd (editMessage ex_tags ex_clock ex_thread 1 1 (Some ''hello''))))
     = [ex_original, edit_of ex_tags (Some ''hello'') 1208 ex_copy_a, ex_copy_b] \<and>
   map dest (snd (snd (editMessage ex_tags ex_clock ex_thread 1 0 (Some ''hello''))))
     = [ToRoom (GroupRoom (Some 10))] \<and>
   map dest (snd (snd (editMessage ex_tags ex_clock ex_thread 1 1 (Some ''hello''))))
     = [ToRoom (GroupRoom (Some 20))]"
proof -
  have h0: "findMessage ex_thread 0 = Some ex_original"
    and h1: "findMessage ex_thread 1 = Some ex_copy_a"
    by (simp_all add: findMessage_def ex_thread_def ex_original_def ex_copy_a_def new_message_def)
  have s0: "1 = senderId ex_original" and s1: "1 = senderId ex_copy_a"
    by (simp_all add: ex_original_def ex_copy_a_def new_message_def)
  have w0: "ex_clock 202 - createdAt ex_original \<le> 15 * 60 * 1000"
    and w1: "ex_clock 202 - createdAt ex_copy_a \<le> 15 * 60 * 1000"
    by (simp_all add: ex_clock_def ex_original_def ex_copy_a_def new_message_def)
  have l: "messages ex_thread = [ex_original, ex_copy_a, ex_copy_b]"
    "m_id ex_original = 0" "m_id ex_copy_a = 1" "m_id ex_copy_b = 2"
    "forwardedFrom ex_original = None"
    "forwardedFrom ex_copy_a = Some 0" "forwardedFrom ex_copy_b = Some 0"
    "groupId ex_original = Some 10" "groupId ex_copy_a = Some 20" "io ex_thread"
    by (simp_all add: ex_thread_def ex_state_def ex_original_def ex_copy_a_def ex_copy_b_def
          new_message_def)
  show ?thesis
    using h0 h1 s0 s1 w0 w1 l
      edit_cascade[where clk=ex_clock and xt=ex_tags and t="Some ''hello''", OF h0 s0 w0]
      edit_cascade[where clk=ex_clock and xt=ex_tags and t="Some ''hello''", OF h1 s1 w1]
    by (simp add: ex_clock_def)
qed

subsection \<open>C9: the retention sweep\<close>

text \<open>
  Claim C9. A run of the sweep whose store call succeeds keeps exactly the messages that
  are not tombstoned more than 24 hours before the clock the run reads, in their order,
  and changes nothing else: a record tombstoned 25 hours ago is gone, a record tombstoned
  23 hours ago and a record that is not tombstoned stay. A run whose store call rejects
  logs the error and returns normally, with the state as it was.
\<close>

theorem retention_sweep:
  "set (messages (fst (cleanupDeletedMessages True clk s))) =
     {m \<in> set (messages s).
        \<not> (isDeleted (deleted m) \<and>
           (\<exists>t. deletedAt (deleted m) = Some t \<and> clk 9 - t > 24 * 60 * 60 * 1000))} \<and>
   (\<forall>m \<in> set (messages s).
      isDeleted (deleted m) \<and> deletedAt (deleted m) = Some (clk 9 - 25 * 60 * 60 * 1000)
        \<longrightarrow> m \<notin> set (messages (fst (cleanupDeletedMessages True clk s)))) \<and>
   (\<forall>m \<in> set (messages s).
      deletedAt (deleted m) = Some (clk 9 - 23 * 60 * 60 * 1000)
        \<longrightarrow> m \<in> set (messages (fst (cleanupDeletedMessages True clk s)))) \<and>
   (\<forall>m \<in> set (messages s).
      \<not> isDeleted (deleted m)
        \<longrightarrow> m \<in> set (messages (fst (cleanupDeletedMessages True clk s)))) \<and>
   fst (cleanupDeletedMessages True clk s)
     = s\<lparr>messages := messages (fst (cleanupDeletedMessages True clk s))\<rparr> \<and>
   cleanupDeletedMessages False clk s = (s, SweepError)"
proof -
  have A: "set (messages (fst (cleanupDeletedMessages True clk s))) =
     {m \<in> set (messages s).
        \<not> (isDeleted (deleted m) \<and>
           (\<exists>t. deletedAt (deleted m) = Some t \<and> clk 9 - t > 24 * 60 * 60 * 1000))}"
    by (rule sweep_keeps)
  have B: "\<forall>m \<in> set (messages s).
      isDeleted (deleted m) \<and> deletedAt (deleted m) = Some (clk 9 - 25 * 60 * 60 * 1000)
        \<longrightarrow> m \<notin> set (messages (fst (cleanupDeletedMessages True clk s)))"
    unfolding A by simp
  have C: "\<forall>m \<in> set (messages s).
      deletedAt (deleted m) = Some (clk 9 - 23 * 60 * 60 * 1000)
        \<longrightarrow> m \<in> set (messages (fst (cleanupDeletedMessages True clk s)))"
    unfolding A by simp
  have D: "\<forall>m \<in> set (messages s).
      \<not> isDeleted (deleted m)
        \<longrightarrow> m \<in> set (messages (fst (cleanupDeletedMessages True clk s)))"
    unfolding A by simp
  have E: "fst (cleanupDeletedMessages True clk s)
     = s\<lparr>messages := messages (fst (cleanupDeletedMessages True clk s))\<rparr>"
    by (simp add: cleanupDeletedMessages_def Let_def)
  have F: "cleanupDeletedMessages False clk s = (s, SweepError)"
    by (simp add: cleanupDeletedMessages_def Let_def)
  show ?thesis by (rule conjI[OF A conjI[OF B conjI[OF C conjI[OF D conjI[OF E F]]]]])
qed

text \<open>Claim C9 on the example archive, swept at hour 100: the record tombstoned at hour 75
  goes, the record tombstoned at hour 77 and the live record stay.\<close>

theorem retention_sweep_witness:
  "ex_purged \<in> set (messages ex_archive) \<and> isDeleted (deleted ex_purged) \<and>
   deletedAt (deleted ex_purged) = Some (ex_later 9 - 25 * 60 * 60 * 1000) \<and>
   ex_kept \<in> set (messages ex_archive) \<and> isDeleted (deleted ex_kept) \<and>
   deletedAt (deleted ex_kept) = Some (ex_later 9 - 23 * 60 * 60 * 1000) \<and>
   ex_live \<in> set (messages ex_archive) \<and> \<not> isDeleted (deleted ex_live) \<and>
   ex_purged \<notin> set (messages (fst (cleanupDeletedMessages True ex_later ex_archive))) \<and>
   ex_kept \<in> set (messages (fst (cleanupDeletedMessages True ex_later ex_archive))) \<and>
   ex_live \<in> set (messages (fst (cleanupDeletedMessages True ex_later ex_archive))) \<and>
   cleanupDeletedMessages False ex_later ex_archive = (ex_archive, SweepError)"
proof -
  have l: "messages ex_archive = [ex_purged, ex_kept, ex_live]"
    by (simp add: ex_archive_def)
  have p: "isDeleted (deleted ex_purged)"
    "deletedAt (deleted ex_purged) = Some (ex_later 9 - 25 * 60 * 60 * 1000)"
    "isDeleted (deleted ex_kept)"
    "deletedAt (deleted ex_kept) = Some (ex_later 9 - 23 * 60 * 60 * 1000)"
    "\<not> isDeleted (deleted ex_live)"
    by (simp_all add: ex_purged_def ex_kept_def ex_live_def tombstone_def new_message_def
          ex_later_def)
  show ?thesis
    using l p retention_sweep[of ex_later ex_archive] by simp
qed

subsection \<open>C10: what the listing shows\<close>

text \<open>
  Claim C10. Every message of a listing that \<^verbatim>\<open>getMessages\<close> returns for a user is a stored
  message of the requested group, is not tombstoned, and was created at or after the user's
  \<open>groupJoinedAt\<close> when the user has one, and within the last seven days (by the clock the
  request reads) when the user has none. The first page of a listing whose limit covers
  the whole count holds every such message (created before the \<^verbatim>\<open>before\<close> bound, when one
  is given), so nothing else is filtered out.
\<close>

theorem listing_visibility:
  assumes "getMessages clk s a g page limit before = Inr l"
      and "users s a = Some u"
  shows "(\<forall>m \<in> set (l_messages l).
            m \<in> set (messages s) \<and> groupId m = Some g \<and> \<not> isDeleted (deleted m) \<and>
            (case groupJoinedAt u of
               Some joined \<Rightarrow> joined \<le> createdAt m
             | None \<Rightarrow> clk 125 - 7 * 24 * 60 * 60 * 1000 \<le> createdAt m)) \<and>
         (page = 1 \<and> int (length (filter (message_query clk u g before) (messages s))) \<le> limit
            \<longrightarrow> set (l_messages l) = {m \<in> set (messages s). message_query clk u g before m})"
proof -
  have eq: "l_messages l = aggregate (message_query clk u g before) (nat ((page - 1) * limit))
                          (nat limit) (messages s)"
    by (rule getMessages_Inr[OF assms])
  have A: "\<forall>m \<in> set (l_messages l).
            m \<in> set (messages s) \<and> groupId m = Some g \<and> \<not> isDeleted (deleted m) \<and>
            (case groupJoinedAt u of
               Some joined \<Rightarrow> joined \<le> createdAt m
             | None \<Rightarrow> clk 125 - 7 * 24 * 60 * 60 * 1000 \<le> createdAt m)"
    using set_aggregate[of "message_query clk u g before" "nat ((page - 1) * limit)"
                           "nat limit" "messages s"]
    unfolding eq by (auto simp: message_query_def)
  have B: "page = 1 \<and> int (length (filter (message_query clk u g before) (messages s))) \<le> limit
            \<longrightarrow> set (l_messages l) = {m \<in> set (messages s). message_query clk u g before m}"
  proof
    assume h: "page = 1 \<and> int (length (filter (message_query clk u g before) (messages s))) \<le> limit"
    then have "length (filter (message_query clk u g before) (messages s)) \<le> nat limit"
      by linarith
    from aggregate_first_page[OF this] h
    show "set (l_messages l) = {m \<in> set (messages s). message_query clk u g before m}"
      unfolding eq by simp
  qed
  show ?thesis by (rule conjI[OF A B])
qed

text \<open>Claim C10 on the example archive at hour 100: alice, who has no join date, gets the
  live message alone (the tombstoned ones are left out, and so would be anything older
  than seven days); bob, who joined at time 2000, gets it too.\<close>

theorem listing_visibility_witness:
  "users ex_archive 1 = Some ex_alice \<and> users ex_archive 2 = Some ex_bob \<and>
   groupJoinedAt ex_alice = None \<and> groupJoinedAt ex_bob = Some 2000 \<and>
   map_sum id l_messages (getMessages ex_later ex_archive 1 10 1 100 None) = Inr [ex_live] \<and>
   map_sum id l_messages (getMessages ex_later ex_archive 2 10 1 100 None) = Inr [ex_live]"
proof -
  have u: "users ex_archive 1 = Some ex_alice" "users ex_archive 2 = Some ex_bob"
    by (simp_all add: ex_archive_def ex_state_def)
  have q: "filter (message_query ex_later ex_alice 10 None) (messages ex_archive) = [ex_live]"
    "filter (message_query ex_later ex_bob 10 None) (messages ex_archive) = [ex_live]"
    by (simp_all add: message_query_def ex_archive_def ex_purged_def ex_kept_def ex_live_def
          tombstone_def new_message_def ex_alice_def ex_bob_def ex_later_def)
  have g: "findGroup ex_archive 10 = Some ex_general"
    by (simp add: findGroup_def ex_archive_def ex_state_def ex_general_def)
  have r: "\<exists>l. getMessages ex_later ex_archive 1 10 1 100 None = Inr l \<and> l_messages l = [ex_live]"
    "\<exists>l. getMessages ex_later ex_archive 2 10 1 100 None = Inr l \<and> l_messages l = [ex_live]"
    using u q g by (simp_all add: getMessages_def Let_def aggregate_def ex_general_def)
  then obtain l1 l2 where
    l1: "getMessages ex_later ex_archive 1 10 1 100 None = Inr l1" "l_messages l1 = [ex_live]" and
    l2: "getMessages ex_later ex_archive 2 10 1 100 None = Inr l2" "l_messages l2 = [ex_live]"
    by blast
  show ?thesis
    using u l1 l2 listing_visibility[OF l1(1) u(1)] listing_visibility[OF l2(1) u(2)]
    by (simp add: ex_alice_def ex_bob_def)
qed

end
